theory Spec2Isabelle
  imports Main "HOL-Library.Word" "HOL-Library.Sublist"
begin

unbundle bit_operations_syntax

chapter \<open>FreelanceOS backend: the security middleware\<close>

text \<open>
  A shallow embedding of the hand-written security utilities of the backend
  (\<^verbatim>\<open>backend/src/utils\<close>): the CORS origin check, the global error handlers, the
  sliding-window rate limiter, the credentials manager, the PII cipher, the XSS
  sanitizer and the path-traversal filter.  The strings of the origin check, the rate
  limiter, the secret store and the path filter are byte strings (an Isabelle
  \<^typ>\<open>char\<close> is one byte); the strings of the cipher and of the sanitizer are sequences
  of UTF-16 code units.  Times are milliseconds since the epoch, as \<^typ>\<open>int\<close>.
  Logging calls have no influence on any result and are left out, except in the error
  handlers, where the log entry is part of what is specified.
\<close>

section \<open>String helpers of the JavaScript runtime\<close>

text \<open>\<^verbatim>\<open>String.prototype.includes\<close>: does \<open>sub\<close> occur in \<open>s\<close>?\<close>

fun str_includes :: "string \<Rightarrow> string \<Rightarrow> bool" where
  "str_includes [] sub = (sub = [])"
| "str_includes (c # cs) sub = (prefix sub (c # cs) \<or> str_includes cs sub)"

text \<open>\<^verbatim>\<open>toUpperCase\<close> and \<^verbatim>\<open>toLowerCase\<close> on the ASCII letters.\<close>

definition upper_char :: "char \<Rightarrow> char" where
  "upper_char c =
     (let n = (of_char c :: nat) in if 97 \<le> n \<and> n \<le> 122 then char_of (n - 32) else c)"

definition lower_char :: "char \<Rightarrow> char" where
  "lower_char c =
     (let n = (of_char c :: nat) in if 65 \<le> n \<and> n \<le> 90 then char_of (n + 32) else c)"

definition toUpperCase :: "string \<Rightarrow> string" where
  "toUpperCase s = map upper_char s"

definition toLowerCase :: "string \<Rightarrow> string" where
  "toLowerCase s = map lower_char s"

text \<open>\<^verbatim>\<open>String.prototype.startsWith\<close>.\<close>

definition startsWith :: "string \<Rightarrow> string \<Rightarrow> bool" where
  "startsWith s p = prefix p s"

text \<open>The value of a hex digit.\<close>

definition hex_value :: "char \<Rightarrow> nat option" where
  "hex_value c =
     (let n = (of_char c :: nat) in
      if 48 \<le> n \<and> n \<le> 57 then Some (n - 48)
      else if 97 \<le> n \<and> n \<le> 102 then Some (n - 87)
      else if 65 \<le> n \<and> n \<le> 70 then Some (n - 55)
      else None)"

section \<open>Origin guard (\<^verbatim>\<open>cors-security.ts\<close>)\<close>

text \<open>
  What \<^verbatim>\<open>new URL(origin)\<close> exposes to the check.  The URL parser belongs to the
  runtime and is a parameter \<open>parse\<close> of the model; \<open>None\<close> is the \<^verbatim>\<open>TypeError\<close> it
  throws on a string that is not a URL.  \<open>url_port\<close> is \<open>None\<close> for the empty port
  string.
\<close>

record url =
  url_origin :: string
  url_hostname :: string
  url_port :: "nat option"
  url_protocol :: string

text \<open>\<^verbatim>\<open>PRODUCTION_ALLOWED_ORIGINS\<close>, with \<^verbatim>\<open>config.FRONTEND_URL\<close> as a parameter;
  \<^verbatim>\<open>filter(Boolean)\<close> drops an empty entry.\<close>

definition PRODUCTION_ALLOWED_ORIGINS :: "string \<Rightarrow> string list" where
  "PRODUCTION_ALLOWED_ORIGINS frontend_url =
     filter (\<lambda>s. s \<noteq> [])
       [frontend_url, ''https://freelance-os.com'', ''https://www.freelance-os.com'',
        ''https://app.freelance-os.com'']"

definition DEV_ALLOWED_PORTS :: "nat list" where
  "DEV_ALLOWED_PORTS = [3000, 3001, 5173, 5174, 8080, 8081, 4200]"

definition origin_in_whitelist :: "(string \<Rightarrow> url option) \<Rightarrow> string \<Rightarrow> url \<Rightarrow> bool" where
  "origin_in_whitelist parse frontend_url u =
     list_ex (\<lambda>allowed. case parse allowed of
                          None \<Rightarrow> False
                        | Some a \<Rightarrow> url_origin u = url_origin a)
       (PRODUCTION_ALLOWED_ORIGINS frontend_url)"

definition is_local_host :: "string \<Rightarrow> bool" where
  "is_local_host h = (h = ''localhost'' \<or> h = ''127.0.0.1'' \<or> h = ''::1'')"

text \<open>\<^verbatim>\<open>parseInt(url.port) || (url.protocol === 'https:' ? 443 : 80)\<close>: an empty port and
  the port 0 are both falsy.\<close>

definition effective_port :: "url \<Rightarrow> nat" where
  "effective_port u =
     (case url_port u of
        Some p \<Rightarrow> if p \<noteq> 0 then p else if url_protocol u = ''https:'' then 443 else 80
      | None \<Rightarrow> if url_protocol u = ''https:'' then 443 else 80)"

text \<open>The origin is \<open>None\<close> when the header is absent; \<^verbatim>\<open>!origin\<close> also holds for the
  empty string.\<close>

definition isOriginAllowed ::
  "(string \<Rightarrow> url option) \<Rightarrow> string \<Rightarrow> string option \<Rightarrow> string \<Rightarrow> bool" where
  "isOriginAllowed parse frontend_url origin environment =
     (case origin of
        None \<Rightarrow> environment = ''development''
      | Some o_str \<Rightarrow>
          if o_str = [] then environment = ''development''
          else (case parse o_str of
                  None \<Rightarrow> False
                | Some u \<Rightarrow>
                    if environment = ''production''
                    then origin_in_whitelist parse frontend_url u
                    else if environment = ''development''
                    then (if \<not> is_local_host (url_hostname u)
                             \<and> \<not> origin_in_whitelist parse frontend_url u
                          then False
                          else if is_local_host (url_hostname u)
                                  \<and> effective_port u \<notin> set DEV_ALLOWED_PORTS
                          then False
                          else True)
                    else False))"

section \<open>Secure error mapper (\<^verbatim>\<open>secure-error-handler.ts\<close>)\<close>

datatype ErrorType =
  VALIDATION | AUTHENTICATION | AUTHORIZATION | RESOURCE_NOT_FOUND | RATE_LIMIT
  | INTERNAL | DATABASE | EXTERNAL_SERVICE | SECURITY

datatype ErrorSeverity = LOW | MEDIUM | HIGH | CRITICAL

fun ERROR_STATUS_CODES :: "ErrorType \<Rightarrow> nat" where
  "ERROR_STATUS_CODES VALIDATION = 400"
| "ERROR_STATUS_CODES AUTHENTICATION = 401"
| "ERROR_STATUS_CODES AUTHORIZATION = 403"
| "ERROR_STATUS_CODES RESOURCE_NOT_FOUND = 404"
| "ERROR_STATUS_CODES RATE_LIMIT = 429"
| "ERROR_STATUS_CODES INTERNAL = 500"
| "ERROR_STATUS_CODES DATABASE = 500"
| "ERROR_STATUS_CODES EXTERNAL_SERVICE = 503"
| "ERROR_STATUS_CODES SECURITY = 403"

fun USER_ERROR_MESSAGES :: "ErrorType \<Rightarrow> string" where
  "USER_ERROR_MESSAGES VALIDATION = ''Les donnees fournies ne sont pas valides.''"
| "USER_ERROR_MESSAGES AUTHENTICATION = ''Authentification requise.''"
| "USER_ERROR_MESSAGES AUTHORIZATION = ''Acces non autorise.''"
| "USER_ERROR_MESSAGES RESOURCE_NOT_FOUND = ''Ressource introuvable.''"
| "USER_ERROR_MESSAGES RATE_LIMIT = ''Trop de requetes. Veuillez reessayer plus tard.''"
| "USER_ERROR_MESSAGES INTERNAL = ''Une erreur interne est survenue.''"
| "USER_ERROR_MESSAGES DATABASE = ''Erreur de base de donnees.''"
| "USER_ERROR_MESSAGES EXTERNAL_SERVICE = ''Service externe indisponible.''"
| "USER_ERROR_MESSAGES SECURITY = ''Violation de securite detectee.''"

definition determineSeverity :: "ErrorType \<Rightarrow> nat \<Rightarrow> ErrorSeverity" where
  "determineSeverity t statusCode =
     (if t = SECURITY then CRITICAL
      else if statusCode \<ge> 500 then HIGH
      else if statusCode \<ge> 400 then MEDIUM
      else LOW)"

text \<open>The options object of \<^verbatim>\<open>createSecureError\<close>; an absent field is \<open>None\<close>.\<close>

record error_options =
  opt_userMessage :: "string option"
  opt_statusCode :: "nat option"
  opt_severity :: "ErrorSeverity option"
  opt_source :: "string option"

definition no_options :: error_options where
  "no_options =
     \<lparr>opt_userMessage = None, opt_statusCode = None, opt_severity = None, opt_source = None\<rparr>"

text \<open>The error id and the timestamp of a \<^verbatim>\<open>SecureError\<close> come from the clock and the
  random generator and are not part of the model.\<close>

record SecureError =
  se_type :: ErrorType
  se_severity :: ErrorSeverity
  se_message :: string
  se_userMessage :: string
  se_statusCode :: nat
  se_source :: "string option"

text \<open>\<^verbatim>\<open>options.statusCode || ERROR_STATUS_CODES[type]\<close>: a status code 0 and an empty
  user message are falsy and give the default.\<close>

definition createSecureError :: "ErrorType \<Rightarrow> string \<Rightarrow> error_options \<Rightarrow> SecureError" where
  "createSecureError t originalError options =
     (let statusCode = (case opt_statusCode options of
                          Some c \<Rightarrow> if c \<noteq> 0 then c else ERROR_STATUS_CODES t
                        | None \<Rightarrow> ERROR_STATUS_CODES t);
          severity = (case opt_severity options of
                        Some s \<Rightarrow> s
                      | None \<Rightarrow> determineSeverity t statusCode)
      in \<lparr>se_type = t, se_severity = severity, se_message = originalError,
          se_userMessage = (case opt_userMessage options of
                              Some m \<Rightarrow> if m \<noteq> [] then m else USER_ERROR_MESSAGES t
                            | None \<Rightarrow> USER_ERROR_MESSAGES t),
          se_statusCode = statusCode, se_source = opt_source options\<rparr>)"

datatype log_level = LogError | LogWarn | LogInfo

text \<open>\<^verbatim>\<open>logSecureError\<close>: the logger method is chosen by the severity.\<close>

definition logSecureError :: "SecureError \<Rightarrow> log_level \<times> SecureError" where
  "logSecureError e =
     (case se_severity e of
        CRITICAL \<Rightarrow> (LogError, e)
      | HIGH \<Rightarrow> (LogError, e)
      | MEDIUM \<Rightarrow> (LogWarn, e)
      | LOW \<Rightarrow> (LogInfo, e))"

text \<open>
  \<^verbatim>\<open>setupGlobalErrorHandlers\<close> registers one listener for each of the two process
  events.  The outcome of a listener is what it logged and whether it scheduled
  \<^verbatim>\<open>process.exit(1)\<close> (the pair is the delay in milliseconds and the exit code).
\<close>

datatype process_event = UncaughtException string | UnhandledRejection string

record handler_outcome =
  logged :: "(log_level \<times> SecureError) list"
  exit_scheduled :: "(nat \<times> nat) option"

fun globalErrorHandler :: "string \<Rightarrow> process_event \<Rightarrow> handler_outcome" where
  "globalErrorHandler node_env (UncaughtException msg) =
     (let secureError = createSecureError INTERNAL msg
            (no_options\<lparr>opt_severity := Some CRITICAL,
                        opt_source := Some ''uncaughtException''\<rparr>)
      in \<lparr>logged = [logSecureError secureError],
          exit_scheduled = (if node_env = ''production'' then Some (1000, 1) else None)\<rparr>)"
| "globalErrorHandler node_env (UnhandledRejection msg) =
     (let secureError = createSecureError INTERNAL msg
            (no_options\<lparr>opt_severity := Some HIGH,
                        opt_source := Some ''unhandledRejection''\<rparr>)
      in \<lparr>logged = [logSecureError secureError], exit_scheduled = None\<rparr>)"


section \<open>Rate limiter and IP blocker (\<^verbatim>\<open>advanced-rate-limit.ts\<close>)\<close>

subsection \<open>The Redis operations the limiter uses\<close>

text \<open>
  A sorted-set member is the string \<^verbatim>\<open>`${now}-${Math.random()}`\<close>; it is modelled as the
  pair of the timestamp and the random draw.  The sorted set lists each member with
  its score.  The value stored under a block key is the JSON text of the block record.
\<close>

type_synonym zmember = "int \<times> nat"

record block_record =
  blockedAt :: int
  reason :: string
  duration :: nat

datatype redis_value = RString block_record | RZSet "(zmember \<times> int) list"

text \<open>The key space: a value and the time at which the key expires, if it has a TTL.\<close>

type_synonym redis = "string \<Rightarrow> (redis_value \<times> int option) option"

text \<open>A key whose expiry time has been reached is gone.\<close>

definition unexpired :: "int \<Rightarrow> int option \<Rightarrow> bool" where
  "unexpired now e = (case e of None \<Rightarrow> True | Some t \<Rightarrow> now < t)"

definition live :: "redis \<Rightarrow> int \<Rightarrow> string \<Rightarrow> (redis_value \<times> int option) option" where
  "live st now k =
     (case st k of
        None \<Rightarrow> None
      | Some (v, e) \<Rightarrow> if unexpired now e then Some (v, e) else None)"

definition redis_exists :: "redis \<Rightarrow> int \<Rightarrow> string \<Rightarrow> nat" where
  "redis_exists st now k = (case live st now k of None \<Rightarrow> 0 | Some _ \<Rightarrow> 1)"

definition redis_setex :: "redis \<Rightarrow> int \<Rightarrow> string \<Rightarrow> nat \<Rightarrow> block_record \<Rightarrow> redis" where
  "redis_setex st now k seconds v = st(k \<mapsto> (RString v, Some (now + 1000 * int seconds)))"

text \<open>The sorted-set commands answer \<open>None\<close> (the \<^verbatim>\<open>WRONGTYPE\<close> error, a rejected
  promise) on a key that holds a string.  \<^verbatim>\<open>ZREMRANGEBYSCORE key -inf max\<close> removes
  the members whose score is at most \<open>max\<close>, and the key with its last member.\<close>

definition redis_zremrangebyscore :: "redis \<Rightarrow> int \<Rightarrow> string \<Rightarrow> int \<Rightarrow> redis option" where
  "redis_zremrangebyscore st now k maxscore =
     (case live st now k of
        None \<Rightarrow> Some st
      | Some (RString _, _) \<Rightarrow> None
      | Some (RZSet z, e) \<Rightarrow>
          (let z' = filter (\<lambda>(m, s). \<not> s \<le> maxscore) z
           in if z' = [] then Some (st(k := None)) else Some (st(k \<mapsto> (RZSet z', e)))))"

definition redis_zcard :: "redis \<Rightarrow> int \<Rightarrow> string \<Rightarrow> nat option" where
  "redis_zcard st now k =
     (case live st now k of
        None \<Rightarrow> Some 0
      | Some (RString _, _) \<Rightarrow> None
      | Some (RZSet z, _) \<Rightarrow> Some (length z))"

text \<open>\<^verbatim>\<open>ZADD\<close> adds the member, or updates the score of a member that is there.\<close>

definition redis_zadd :: "redis \<Rightarrow> int \<Rightarrow> string \<Rightarrow> int \<Rightarrow> zmember \<Rightarrow> redis option" where
  "redis_zadd st now k score m =
     (case live st now k of
        None \<Rightarrow> Some (st(k \<mapsto> (RZSet [(m, score)], None)))
      | Some (RString _, _) \<Rightarrow> None
      | Some (RZSet z, e) \<Rightarrow>
          Some (st(k \<mapsto> (RZSet (filter (\<lambda>(m', s). m' \<noteq> m) z @ [(m, score)]), e))))"

definition redis_expire :: "redis \<Rightarrow> int \<Rightarrow> string \<Rightarrow> int \<Rightarrow> redis" where
  "redis_expire st now k seconds =
     (case live st now k of
        None \<Rightarrow> st
      | Some (v, _) \<Rightarrow> st(k \<mapsto> (v, Some (now + 1000 * seconds))))"

subsection \<open>Configuration\<close>

record RateLimitConfig =
  windowMs :: int
  maxRequests :: nat
  skipSuccessfulRequests :: bool
  skipFailedRequests :: bool
  blockDuration :: "nat option"

datatype limit_type = Auth | Create | Read | Update | Delete | General

text \<open>\<^verbatim>\<open>RATE_LIMITS\<close>; the argument is \<^verbatim>\<open>config.NODE_ENV\<close>.\<close>

fun RATE_LIMITS :: "string \<Rightarrow> limit_type \<Rightarrow> RateLimitConfig" where
  "RATE_LIMITS node_env Auth =
     \<lparr>windowMs = 15 * 60 * 1000, maxRequests = 5, skipSuccessfulRequests = True,
      skipFailedRequests = False, blockDuration = Some (30 * 60)\<rparr>"
| "RATE_LIMITS node_env Create =
     \<lparr>windowMs = 60 * 1000, maxRequests = 10, skipSuccessfulRequests = False,
      skipFailedRequests = True, blockDuration = Some (5 * 60)\<rparr>"
| "RATE_LIMITS node_env Read =
     \<lparr>windowMs = 60 * 1000, maxRequests = (if node_env = ''development'' then 15 else 60),
      skipSuccessfulRequests = False, skipFailedRequests = True,
      blockDuration = Some (2 * 60)\<rparr>"
| "RATE_LIMITS node_env Update =
     \<lparr>windowMs = 60 * 1000, maxRequests = 30, skipSuccessfulRequests = False,
      skipFailedRequests = True, blockDuration = Some (3 * 60)\<rparr>"
| "RATE_LIMITS node_env Delete =
     \<lparr>windowMs = 60 * 1000, maxRequests = 5, skipSuccessfulRequests = False,
      skipFailedRequests = True, blockDuration = Some (10 * 60)\<rparr>"
| "RATE_LIMITS node_env General =
     \<lparr>windowMs = 60 * 1000, maxRequests = (if node_env = ''production'' then 100 else 20),
      skipSuccessfulRequests = False, skipFailedRequests = True,
      blockDuration = Some (5 * 60)\<rparr>"

definition getRateLimitType :: "string \<Rightarrow> string \<Rightarrow> limit_type" where
  "getRateLimitType method url =
     (if str_includes url ''/auth/'' then Auth
      else let m = toUpperCase method in
        if m = ''POST'' then Create
        else if m = ''GET'' then Read
        else if m = ''PUT'' \<or> m = ''PATCH'' then Update
        else if m = ''DELETE'' then Delete
        else General)"

text \<open>An absent and an empty user id are both falsy.\<close>

definition generateRateLimitKey :: "string \<Rightarrow> string \<Rightarrow> string option \<Rightarrow> string" where
  "generateRateLimitKey ip endpoint userId =
     (let base = ''ratelimit:'' @ ip @ '':'' @ endpoint
      in case userId of
           None \<Rightarrow> base
         | Some u \<Rightarrow> if u = [] then base else base @ '':user:'' @ u)"

definition generateBlockKey :: "string \<Rightarrow> string" where
  "generateBlockKey ip = ''blocked:'' @ ip"

subsection \<open>The middleware\<close>

text \<open>
  \<open>redis_up\<close> says whether the Redis connection answers during the request; when it
  does not, every command rejects.  \<^verbatim>\<open>isIPBlocked\<close> and \<^verbatim>\<open>blockIP\<close> catch the rejection
  themselves.
\<close>

definition isIPBlocked :: "bool \<Rightarrow> redis \<Rightarrow> int \<Rightarrow> string \<Rightarrow> bool" where
  "isIPBlocked redis_up st now ip =
     (if redis_up then redis_exists st now (generateBlockKey ip) = 1 else False)"

definition blockIP :: "bool \<Rightarrow> redis \<Rightarrow> int \<Rightarrow> string \<Rightarrow> nat \<Rightarrow> string \<Rightarrow> redis" where
  "blockIP redis_up st now ip durationSeconds why =
     (if redis_up
      then redis_setex st now (generateBlockKey ip) durationSeconds
             \<lparr>blockedAt = now, reason = why, duration = durationSeconds\<rparr>
      else st)"

record request =
  req_ip :: string
  req_method :: string
  req_url :: string
  req_userId :: "string option"
  req_now :: int
  req_random :: nat

text \<open>
  What the middleware does to the reply: the two 429 bodies (with their \<^verbatim>\<open>retryAfter\<close>),
  the informative headers of an admitted request, or nothing at all when a Redis
  command failed inside the \<^verbatim>\<open>try\<close> block (the request passes).
\<close>

datatype reply =
    IpTemporarilyBlocked (retryAfter: int)
  | RateLimitExceeded (limit: nat) (window: int) (retryAfter: int)
  | Admitted (hdr_limit: nat) (hdr_remaining: int) (hdr_reset: int) (hdr_window: int)
  | FailOpen

text \<open>\<^verbatim>\<open>Math.ceil(limits.windowMs / 1000)\<close>.\<close>

definition ceil_seconds :: "int \<Rightarrow> int" where
  "ceil_seconds ms = - ((- ms) div 1000)"

text \<open>The text of the block reason names the limit type and the two counts; the
  limit type stands for it here.\<close>

fun limit_type_name :: "limit_type \<Rightarrow> string" where
  "limit_type_name Auth = ''auth''"
| "limit_type_name Create = ''create''"
| "limit_type_name Read = ''read''"
| "limit_type_name Update = ''update''"
| "limit_type_name Delete = ''delete''"
| "limit_type_name General = ''general''"

definition advancedRateLimitMiddleware ::
  "string \<Rightarrow> bool \<Rightarrow> redis \<Rightarrow> request \<Rightarrow> reply \<times> redis" where
  "advancedRateLimitMiddleware node_env redis_up st req =
     (let ip = req_ip req; url = req_url req; now = req_now req in
      if isIPBlocked redis_up st now ip then (IpTemporarilyBlocked 300, st)
      else
        let limitType = getRateLimitType (req_method req) url;
            limits = RATE_LIMITS node_env limitType;
            rateLimitKey = generateRateLimitKey ip url (req_userId req);
            windowStart = now - windowMs limits
        in if \<not> redis_up then (FailOpen, st)
           else case redis_zremrangebyscore st now rateLimitKey windowStart of
             None \<Rightarrow> (FailOpen, st)
           | Some st1 \<Rightarrow>
              (case redis_zcard st1 now rateLimitKey of
                 None \<Rightarrow> (FailOpen, st1)
               | Some currentCount \<Rightarrow>
                   if currentCount \<ge> maxRequests limits
                   then
                     (RateLimitExceeded (maxRequests limits) (windowMs limits div 1000)
                        (ceil_seconds (windowMs limits)),
                      (case blockDuration limits of
                         None \<Rightarrow> st1
                       | Some d \<Rightarrow>
                           if d \<noteq> 0
                           then blockIP redis_up st1 now ip d (limit_type_name limitType)
                           else st1))
                   else
                     (case redis_zadd st1 now rateLimitKey now (now, req_random req) of
                        None \<Rightarrow> (FailOpen, st1)
                      | Some st2 \<Rightarrow>
                          (Admitted (maxRequests limits)
                             (int (maxRequests limits) - int currentCount - 1)
                             (now + windowMs limits) (windowMs limits div 1000),
                           redis_expire st2 now rateLimitKey
                             (ceil_seconds (windowMs limits))))))"

text \<open>A client's requests, handled one after the other.\<close>

fun handle_all :: "string \<Rightarrow> bool \<Rightarrow> redis \<Rightarrow> request list \<Rightarrow> reply list \<times> redis" where
  "handle_all node_env redis_up st [] = ([], st)"
| "handle_all node_env redis_up st (r # rs) =
     (let (rep, st1) = advancedRateLimitMiddleware node_env redis_up st r;
          (reps, st2) = handle_all node_env redis_up st1 rs
      in (rep # reps, st2))"

text \<open>The entries of a rate-limit window that a check at time \<open>now\<close> counts: those of
  the live key whose score is later than \<open>now - windowMs\<close>.\<close>

definition counted_entries :: "redis \<Rightarrow> int \<Rightarrow> string \<Rightarrow> int \<Rightarrow> (zmember \<times> int) list" where
  "counted_entries st now k w =
     (case live st now k of
        Some (RZSet z, _) \<Rightarrow> filter (\<lambda>(m, s). now - w < s) z
      | _ \<Rightarrow> [])"

definition is_zset_or_free :: "redis \<Rightarrow> int \<Rightarrow> string \<Rightarrow> bool" where
  "is_zset_or_free st now k =
     (case live st now k of Some (RString _, _) \<Rightarrow> False | _ \<Rightarrow> True)"

text \<open>The key space after the purge of the window under \<open>k\<close>: only the counted entries
  stay, and the key goes with its last entry.\<close>

definition purged :: "redis \<Rightarrow> int \<Rightarrow> string \<Rightarrow> int \<Rightarrow> redis" where
  "purged st now k w =
     (case live st now k of
        Some (RZSet z, e) \<Rightarrow>
          (if counted_entries st now k w = [] then st(k := None)
           else st(k \<mapsto> (RZSet (counted_entries st now k w), e)))
      | _ \<Rightarrow> st)"

text \<open>A login attempt of an anonymous client: a POST to an endpoint at time \<open>t\<close>, with
  the random draw \<open>rnd\<close>.\<close>

definition login_attempt :: "string \<Rightarrow> string \<Rightarrow> int \<Rightarrow> nat \<Rightarrow> request" where
  "login_attempt ip url t rnd =
     \<lparr>req_ip = ip, req_method = ''POST'', req_url = url, req_userId = None,
      req_now = t, req_random = rnd\<rparr>"

section \<open>Secret store (\<^verbatim>\<open>SecureCredentialsManager\<close>)\<close>

datatype SecretType = Jwt | Api_key | Database | Encryption | Oauth

record SecretMetadata =
  secret_type :: SecretType
  createdAt :: int
  lastRotatedAt :: int
  rotationCount :: nat
  isActive :: bool
  version :: nat

record EncryptedSecret =
  encryptedValue :: string
  secret_iv :: string
  secret_tag :: string
  metadata :: SecretMetadata

text \<open>
  The cipher of the crypto library, keyed with the master key, is a parameter:
  \<open>cipher_encrypt\<close> gives the ciphertext and the authentication tag, \<open>cipher_decrypt\<close>
  takes the ciphertext, the stored IV and the tag; \<open>None\<close> is a thrown exception.
\<close>

record secret_cipher =
  cipher_encrypt :: "string \<Rightarrow> (string \<times> string) option"
  cipher_decrypt :: "string \<Rightarrow> string \<Rightarrow> string \<Rightarrow> string option"

text \<open>The manager: the map of the secrets and the map of the rotation timers (a timer
  is the time at which it fires).\<close>

record manager =
  secrets :: "string \<Rightarrow> EncryptedSecret option"
  rotationTimers :: "string \<Rightarrow> int option"

definition rotationInterval :: int where
  "rotationInterval = 30 * 24 * 60 * 60 * 1000"

text \<open>\<open>iv\<close> is the text of the sixteen random bytes drawn by the call.\<close>

definition encryptSecret ::
  "secret_cipher \<Rightarrow> string \<Rightarrow> string \<Rightarrow> (string \<times> string \<times> string) option" where
  "encryptSecret C iv plaintext =
     (case cipher_encrypt C plaintext of
        None \<Rightarrow> None
      | Some (encrypted, tag) \<Rightarrow> Some (encrypted, iv, tag))"

definition decryptSecret :: "secret_cipher \<Rightarrow> string \<Rightarrow> string \<Rightarrow> string \<Rightarrow> string option" where
  "decryptSecret C encrypted iv tag = cipher_decrypt C encrypted iv tag"

text \<open>
  \<^verbatim>\<open>setTimeout(callback, ms)\<close> of the runtime keeps a delay only when it lies between
  1 and \<^verbatim>\<open>TIMEOUT_MAX\<close>, the largest signed 32-bit integer; every other delay (a
  larger one with a warning) becomes 1 millisecond.
\<close>

definition TIMEOUT_MAX :: int where
  "TIMEOUT_MAX = 2 ^ 31 - 1"

definition timer_delay :: "int \<Rightarrow> int" where
  "timer_delay ms = (if 1 \<le> ms \<and> ms \<le> TIMEOUT_MAX then ms else 1)"

text \<open>\<^verbatim>\<open>scheduleRotation\<close>: the timer of the name is replaced by one that is set now with
  the rotation interval as its delay.\<close>

definition scheduleRotation :: "int \<Rightarrow> string \<Rightarrow> manager \<Rightarrow> manager" where
  "scheduleRotation now name m =
     m\<lparr>rotationTimers := (rotationTimers m)(name \<mapsto> now + timer_delay rotationInterval)\<rparr>"

text \<open>\<^verbatim>\<open>storeSecret\<close> has no handler of its own: an exception of the cipher leaves the
  manager as it was and reaches the caller (\<open>None\<close>).\<close>

definition storeSecret ::
  "secret_cipher \<Rightarrow> int \<Rightarrow> string \<Rightarrow> string \<Rightarrow> string \<Rightarrow> SecretType \<Rightarrow> manager
     \<Rightarrow> manager option" where
  "storeSecret C now iv name val t m =
     (case encryptSecret C iv val of
        None \<Rightarrow> None
      | Some (e, i, g) \<Rightarrow>
          Some (scheduleRotation now name
            (m\<lparr>secrets := (secrets m)(name \<mapsto>
                 \<lparr>encryptedValue = e, secret_iv = i, secret_tag = g,
                  metadata = \<lparr>secret_type = t, createdAt = now, lastRotatedAt = now,
                               rotationCount = 0, isActive = True, version = 1\<rparr>\<rparr>)\<rparr>)))"

definition getSecret :: "secret_cipher \<Rightarrow> manager \<Rightarrow> string \<Rightarrow> string option" where
  "getSecret C m name =
     (case secrets m name of
        None \<Rightarrow> None
      | Some es \<Rightarrow>
          if \<not> isActive (metadata es) then None
          else decryptSecret C (encryptedValue es) (secret_iv es) (secret_tag es))"

text \<open>\<open>newValue\<close> is what \<^verbatim>\<open>generateStrongSecret\<close> draws for the type of the secret.\<close>

definition rotateSecret ::
  "secret_cipher \<Rightarrow> int \<Rightarrow> string \<Rightarrow> string \<Rightarrow> manager \<Rightarrow> string \<Rightarrow> bool \<times> manager" where
  "rotateSecret C now iv newValue m name =
     (case secrets m name of
        None \<Rightarrow> (False, m)
      | Some es \<Rightarrow>
          (case encryptSecret C iv newValue of
             None \<Rightarrow> (False, m)
           | Some (e, i, g) \<Rightarrow>
               (True,
                scheduleRotation now name
                  (m\<lparr>secrets := (secrets m)(name \<mapsto>
                       \<lparr>encryptedValue = e, secret_iv = i, secret_tag = g,
                        metadata = (metadata es)
                          \<lparr>lastRotatedAt := now,
                           rotationCount := rotationCount (metadata es) + 1,
                           version := version (metadata es) + 1\<rparr>\<rparr>)\<rparr>))))"

definition revokeSecret :: "manager \<Rightarrow> string \<Rightarrow> bool \<times> manager" where
  "revokeSecret m name =
     (case secrets m name of
        None \<Rightarrow> (False, m)
      | Some es \<Rightarrow>
          (True,
           m\<lparr>secrets := (secrets m)(name \<mapsto> es\<lparr>metadata := (metadata es)\<lparr>isActive := False\<rparr>\<rparr>),
             rotationTimers := (rotationTimers m)(name := None)\<rparr>))"

text \<open>
  What can happen to a manager: the four public operations, and a rotation timer that
  fires (it calls \<^verbatim>\<open>rotateSecret\<close>).  Each event carries its time and the random draws
  it uses.
\<close>

datatype manager_event =
    StoreSecret int string string string SecretType
  | GetSecret string
  | RotateSecret int string string string
  | RevokeSecret string
  | TimerFires int string string string

fun event_stores :: "manager_event \<Rightarrow> string \<Rightarrow> bool" where
  "event_stores (StoreSecret now iv name val t) n = (name = n)"
| "event_stores _ n = False"

fun apply_event :: "secret_cipher \<Rightarrow> manager \<Rightarrow> manager_event \<Rightarrow> manager" where
  "apply_event C m (StoreSecret now iv name val t) =
     (case storeSecret C now iv name val t m of None \<Rightarrow> m | Some m' \<Rightarrow> m')"
| "apply_event C m (GetSecret name) = m"
| "apply_event C m (RotateSecret now iv newValue name) = snd (rotateSecret C now iv newValue m name)"
| "apply_event C m (RevokeSecret name) = snd (revokeSecret m name)"
| "apply_event C m (TimerFires now iv newValue name) =
     (case rotationTimers m name of
        None \<Rightarrow> m
      | Some t \<Rightarrow> if t \<le> now then snd (rotateSecret C now iv newValue m name) else m)"

definition apply_events :: "secret_cipher \<Rightarrow> manager \<Rightarrow> manager_event list \<Rightarrow> manager" where
  "apply_events C m evs = foldl (apply_event C) m evs"

text \<open>A cipher for examples: the ciphertext is the reversed plaintext, the tag its
  length.\<close>

definition example_cipher :: secret_cipher where
  "example_cipher =
     \<lparr>cipher_encrypt = (\<lambda>p. Some (rev p, replicate (length p) CHR ''t'')),
      cipher_decrypt = (\<lambda>c i g. if g = replicate (length c) CHR ''t'' then Some (rev c) else None)\<rparr>"

definition empty_manager :: manager where
  "empty_manager = \<lparr>secrets = (\<lambda>n. None), rotationTimers = (\<lambda>n. None)\<rparr>"


section \<open>JavaScript strings and UTF-8\<close>

text \<open>
  A JavaScript string is a sequence of UTF-16 code units; its \<^verbatim>\<open>length\<close> is the number
  of units, and a regular expression without the flag \<^verbatim>\<open>u\<close> reads it unit by unit.  The
  cipher and the content sanitizer are given arbitrary user text, so their strings are
  modelled as such.  \<open>ascii\<close> is the JavaScript string of a literal of the source.
\<close>

type_synonym unit16 = "16 word"

type_synonym jstring = "unit16 list"

definition ascii :: "string \<Rightarrow> jstring" where
  "ascii s = map (\<lambda>c. of_nat (of_char c)) s"

definition is_high_surrogate :: "unit16 \<Rightarrow> bool" where
  "is_high_surrogate u = (0xD800 \<le> unat u \<and> unat u \<le> 0xDBFF)"

definition is_low_surrogate :: "unit16 \<Rightarrow> bool" where
  "is_low_surrogate u = (0xDC00 \<le> unat u \<and> unat u \<le> 0xDFFF)"

text \<open>\<^verbatim>\<open>String.prototype.isWellFormed\<close>: no surrogate stands alone.\<close>

fun isWellFormed :: "jstring \<Rightarrow> bool" where
  "isWellFormed [] = True"
| "isWellFormed [u] = (\<not> is_high_surrogate u \<and> \<not> is_low_surrogate u)"
| "isWellFormed (u # v # rest) =
     (if is_high_surrogate u then is_low_surrogate v \<and> isWellFormed rest
      else \<not> is_low_surrogate u \<and> isWellFormed (v # rest))"

text \<open>
  The code points that the UTF-8 encoder of the runtime reads from a string: a high
  surrogate followed by a low one is one code point beyond the basic plane, and a
  surrogate that stands alone is read as the replacement character U+FFFD.
\<close>

definition REPLACEMENT :: nat where
  "REPLACEMENT = 0xFFFD"

definition point_of_unit :: "unit16 \<Rightarrow> nat" where
  "point_of_unit u = (if is_high_surrogate u \<or> is_low_surrogate u then REPLACEMENT else unat u)"

fun code_points :: "jstring \<Rightarrow> nat list" where
  "code_points [] = []"
| "code_points [u] = [point_of_unit u]"
| "code_points (u # v # rest) =
     (if is_high_surrogate u \<and> is_low_surrogate v
      then (0x10000 + (unat u - 0xD800) * 0x400 + (unat v - 0xDC00)) # code_points rest
      else point_of_unit u # code_points (v # rest))"

text \<open>A scalar value is a code point that is not a surrogate.\<close>

definition is_scalar_value :: "nat \<Rightarrow> bool" where
  "is_scalar_value cp = (cp < 0x110000 \<and> \<not> (0xD800 \<le> cp \<and> cp \<le> 0xDFFF))"

text \<open>The one to four bytes of a code point.\<close>

definition utf8_of_point :: "nat \<Rightarrow> nat list" where
  "utf8_of_point cp =
     (if cp < 0x80 then [cp]
      else if cp < 0x800 then [0xC0 + cp div 64, 0x80 + cp mod 64]
      else if cp < 0x10000 then [0xE0 + cp div 4096, 0x80 + cp div 64 mod 64, 0x80 + cp mod 64]
      else [0xF0 + cp div 262144, 0x80 + cp div 4096 mod 64, 0x80 + cp div 64 mod 64,
            0x80 + cp mod 64])"

text \<open>\<^verbatim>\<open>Buffer.from(s, 'utf8')\<close>, which is also how a cipher reads a text given with the
  input encoding \<^verbatim>\<open>'utf8'\<close>.\<close>

definition utf8_bytes :: "jstring \<Rightarrow> 8 word list" where
  "utf8_bytes s = map of_nat (concat (map utf8_of_point (code_points s)))"

text \<open>
  The UTF-8 decoder of the runtime, on the values of the bytes.  A lead byte announces
  one to three continuation bytes; the first continuation byte of the leads \<^verbatim>\<open>E0\<close>,
  \<^verbatim>\<open>ED\<close>, \<^verbatim>\<open>F0\<close> and \<^verbatim>\<open>F4\<close> has a narrower range, which excludes the overlong forms, the
  surrogates and the values beyond U+10FFFF.  A byte that cannot start a sequence, and
  a sequence that is cut short by the end of the input or by a byte outside the range,
  is read as one replacement character; the byte that cut it short is read again.
\<close>

definition second_lower :: "nat \<Rightarrow> nat" where
  "second_lower lead = (if lead = 0xE0 then 0xA0 else if lead = 0xF0 then 0x90 else 0x80)"

definition second_upper :: "nat \<Rightarrow> nat" where
  "second_upper lead = (if lead = 0xED then 0x9F else if lead = 0xF4 then 0x8F else 0xBF)"

definition is_continuation :: "nat \<Rightarrow> bool" where
  "is_continuation b = (0x80 \<le> b \<and> b \<le> 0xBF)"

fun utf8_points :: "nat list \<Rightarrow> nat list" where
  "utf8_points [] = []"
| "utf8_points (b # bs) =
     (if b < 0x80 then b # utf8_points bs
      else if 0xC2 \<le> b \<and> b \<le> 0xDF then
        (case bs of
           [] \<Rightarrow> [REPLACEMENT]
         | c # r1 \<Rightarrow>
             if is_continuation c then ((b - 0xC0) * 64 + (c - 0x80)) # utf8_points r1
             else REPLACEMENT # utf8_points bs)
      else if 0xE0 \<le> b \<and> b \<le> 0xEF then
        (case bs of
           [] \<Rightarrow> [REPLACEMENT]
         | c # r1 \<Rightarrow>
             if second_lower b \<le> c \<and> c \<le> second_upper b then
               (case r1 of
                  [] \<Rightarrow> [REPLACEMENT]
                | d # r2 \<Rightarrow>
                    if is_continuation d
                    then ((b - 0xE0) * 4096 + (c - 0x80) * 64 + (d - 0x80)) # utf8_points r2
                    else REPLACEMENT # utf8_points r1)
             else REPLACEMENT # utf8_points bs)
      else if 0xF0 \<le> b \<and> b \<le> 0xF4 then
        (case bs of
           [] \<Rightarrow> [REPLACEMENT]
         | c # r1 \<Rightarrow>
             if second_lower b \<le> c \<and> c \<le> second_upper b then
               (case r1 of
                  [] \<Rightarrow> [REPLACEMENT]
                | d # r2 \<Rightarrow>
                    if is_continuation d then
                      (case r2 of
                         [] \<Rightarrow> [REPLACEMENT]
                       | e # r3 \<Rightarrow>
                           if is_continuation e
                           then ((b - 0xF0) * 262144 + (c - 0x80) * 4096 + (d - 0x80) * 64
                                 + (e - 0x80)) # utf8_points r3
                           else REPLACEMENT # utf8_points r2)
                    else REPLACEMENT # utf8_points r1)
             else REPLACEMENT # utf8_points bs)
      else REPLACEMENT # utf8_points bs)"

text \<open>The one or two code units of a code point.\<close>

definition units_of_point :: "nat \<Rightarrow> jstring" where
  "units_of_point cp =
     (if cp < 0x10000 then [of_nat cp]
      else [of_nat (0xD800 + (cp - 0x10000) div 0x400),
            of_nat (0xDC00 + (cp - 0x10000) mod 0x400)])"

text \<open>\<^verbatim>\<open>buf.toString('utf8')\<close>, which is also what a decipher returns with the output
  encoding \<^verbatim>\<open>'utf8'\<close> (\<^verbatim>\<open>update\<close> followed by \<^verbatim>\<open>final\<close>).\<close>

definition utf8_string :: "8 word list \<Rightarrow> jstring" where
  "utf8_string bs = concat (map units_of_point (utf8_points (map unat bs)))"


section \<open>PII cipher (\<^verbatim>\<open>encryption.ts\<close>)\<close>

subsection \<open>Values and encodings of the runtime\<close>

type_synonym byte = "8 word"

text \<open>What \<^verbatim>\<open>JSON.parse\<close> can return.\<close>

datatype js_value =
    JNull
  | JBool bool
  | JNum int
  | JStr jstring
  | JArr "js_value list"
  | JObj "(jstring \<times> js_value) list"

datatype js_error = SyntaxError | TypeError | InvalidIV

text \<open>\<^verbatim>\<open>buf.toString('hex')\<close>.\<close>

definition hex_digit :: "nat \<Rightarrow> unit16" where
  "hex_digit n = ascii ''0123456789abcdef'' ! (n mod 16)"

definition hex_encode :: "byte list \<Rightarrow> jstring" where
  "hex_encode bs = concat (map (\<lambda>b. [hex_digit (unat b div 16), hex_digit (unat b mod 16)]) bs)"

definition hex_unit_value :: "unit16 \<Rightarrow> nat option" where
  "hex_unit_value c =
     (let n = unat c in
      if 48 \<le> n \<and> n \<le> 57 then Some (n - 48)
      else if 97 \<le> n \<and> n \<le> 102 then Some (n - 87)
      else if 65 \<le> n \<and> n \<le> 70 then Some (n - 55)
      else None)"

text \<open>\<^verbatim>\<open>Buffer.from(s, 'hex')\<close>: the decoding stops without an error at the first pair that
  is not two hex digits; a last odd digit is dropped.\<close>

fun hex_decode :: "jstring \<Rightarrow> byte list" where
  "hex_decode (a # b # rest) =
     (case (hex_unit_value a, hex_unit_value b) of
        (Some x, Some y) \<Rightarrow> of_nat (16 * x + y) # hex_decode rest
      | _ \<Rightarrow> [])"
| "hex_decode _ = []"

text \<open>
  AES-256 in counter mode adds a key stream to the text, byte by byte.  The key stream
  of the derived key, as a function of the IV and the position, is a parameter \<open>ks\<close>.
\<close>

fun ctr_from :: "(byte list \<Rightarrow> nat \<Rightarrow> byte) \<Rightarrow> byte list \<Rightarrow> nat \<Rightarrow> byte list \<Rightarrow> byte list" where
  "ctr_from ks iv i [] = []"
| "ctr_from ks iv i (b # bs) = (b XOR ks iv i) # ctr_from ks iv (Suc i) bs"

definition ctr_xor :: "(byte list \<Rightarrow> nat \<Rightarrow> byte) \<Rightarrow> byte list \<Rightarrow> byte list \<Rightarrow> byte list" where
  "ctr_xor ks iv bs = ctr_from ks iv 0 bs"

text \<open>
  The token codec of the runtime is a pair of parameters: \<open>stringify64 v\<close> is
  \<^verbatim>\<open>Buffer.from(JSON.stringify(v)).toString('base64')\<close>, and \<open>parse64 s\<close> is
  \<^verbatim>\<open>JSON.parse(Buffer.from(s, 'base64').toString('utf8'))\<close>, \<open>None\<close> when the parser
  throws.  \<open>codec_ok\<close> says that the codec reads back what it wrote for \<open>v\<close>, and that
  the text it wrote is not empty.
\<close>

definition codec_ok :: "(jstring \<Rightarrow> js_value option) \<Rightarrow> (js_value \<Rightarrow> jstring) \<Rightarrow> js_value \<Rightarrow> bool" where
  "codec_ok parse64 stringify64 v = (stringify64 v \<noteq> [] \<and> parse64 (stringify64 v) = Some v)"

subsection \<open>Encrypt, decrypt, recognise\<close>

text \<open>The \<^verbatim>\<open>EncryptedData\<close> object of a plaintext under an IV.\<close>

definition EncryptedData :: "(byte list \<Rightarrow> nat \<Rightarrow> byte) \<Rightarrow> byte list \<Rightarrow> jstring \<Rightarrow> js_value" where
  "EncryptedData ks iv plaintext =
     JObj [(ascii ''encrypted'', JStr (hex_encode (ctr_xor ks iv (utf8_bytes plaintext)))),
           (ascii ''iv'', JStr (hex_encode iv))]"

text \<open>
  \<open>iv\<close> is what \<^verbatim>\<open>crypto.randomBytes(IV_LENGTH)\<close> returned.  \<^verbatim>\<open>createCipheriv\<close> throws
  on an IV that is not 16 bytes long; the handler rethrows it as the encryption error.
\<close>

datatype pii_error = EncryptionError

definition encryptPII ::
  "(js_value \<Rightarrow> jstring) \<Rightarrow> (byte list \<Rightarrow> nat \<Rightarrow> byte) \<Rightarrow> byte list \<Rightarrow> jstring
     \<Rightarrow> pii_error + jstring" where
  "encryptPII stringify64 ks iv plaintext =
     (if plaintext = [] then Inr plaintext
      else if length iv \<noteq> 16 then Inl EncryptionError
      else Inr (stringify64 (EncryptedData ks iv plaintext)))"

text \<open>Reading a property: of \<^verbatim>\<open>null\<close> it throws; of an object it is the value under the
  key or \<^verbatim>\<open>undefined\<close> (\<open>None\<close>); numbers, booleans, strings and arrays have no
  property of the two names read here.\<close>

definition get_property :: "js_value \<Rightarrow> jstring \<Rightarrow> js_error + js_value option" where
  "get_property v name =
     (case v of
        JNull \<Rightarrow> Inl TypeError
      | JObj members \<Rightarrow> Inr (map_of members name)
      | _ \<Rightarrow> Inr None)"

text \<open>\<^verbatim>\<open>Buffer.from(x, 'hex')\<close>: a string is decoded, \<^verbatim>\<open>undefined\<close> throws; what the
  runtime makes of another value (an array of numbers is taken as the bytes) is the
  parameter \<open>other\<close>.\<close>

definition buffer_from_hex ::
  "(js_value \<Rightarrow> byte list option) \<Rightarrow> js_value option \<Rightarrow> js_error + byte list" where
  "buffer_from_hex other x =
     (case x of
        None \<Rightarrow> Inl TypeError
      | Some (JStr h) \<Rightarrow> Inr (hex_decode h)
      | Some v \<Rightarrow> (case other v of None \<Rightarrow> Inl TypeError | Some bs \<Rightarrow> Inr bs))"

text \<open>\<^verbatim>\<open>decipher.update(x, 'hex', 'utf8') + decipher.final('utf8')\<close>: the data must be a
  string (a parsed JSON value is never a buffer), and \<^verbatim>\<open>update\<close> throws on a string of
  odd length that is given with the input encoding \<^verbatim>\<open>'hex'\<close>.  A string of even length
  is decoded as far as it is hex, and whatever bytes result are read as UTF-8.\<close>

definition decipher_update ::
  "(byte list \<Rightarrow> nat \<Rightarrow> byte) \<Rightarrow> byte list \<Rightarrow> js_value option \<Rightarrow> js_error + jstring" where
  "decipher_update ks iv x =
     (case x of
        Some (JStr h) \<Rightarrow>
          if odd (length h) then Inl TypeError
          else Inr (utf8_string (ctr_xor ks iv (hex_decode h)))
      | _ \<Rightarrow> Inl TypeError)"

text \<open>The body of the \<^verbatim>\<open>try\<close> block of \<^verbatim>\<open>decryptPII\<close>; \<open>Inl\<close> is a thrown exception.\<close>

definition decrypt_body ::
  "(jstring \<Rightarrow> js_value option) \<Rightarrow> (js_value \<Rightarrow> byte list option) \<Rightarrow> (byte list \<Rightarrow> nat \<Rightarrow> byte)
     \<Rightarrow> jstring \<Rightarrow> js_error + jstring" where
  "decrypt_body parse64 other ks encryptedText =
     (case parse64 encryptedText of
        None \<Rightarrow> Inl SyntaxError
      | Some encryptedData \<Rightarrow>
          (case get_property encryptedData (ascii ''iv'') of
             Inl e \<Rightarrow> Inl e
           | Inr iv_value \<Rightarrow>
               (case buffer_from_hex other iv_value of
                  Inl e \<Rightarrow> Inl e
                | Inr iv \<Rightarrow>
                    if length iv \<noteq> 16 then Inl InvalidIV
                    else (case get_property encryptedData (ascii ''encrypted'') of
                            Inl e \<Rightarrow> Inl e
                          | Inr enc \<Rightarrow> decipher_update ks iv enc))))"

text \<open>\<^verbatim>\<open>decryptPII\<close>: the handler of the \<^verbatim>\<open>try\<close> block returns the input.  The result is
  \<open>Inr\<close> of the returned string; \<open>Inl\<close> would be an exception that leaves the function.\<close>

definition decryptPII ::
  "(jstring \<Rightarrow> js_value option) \<Rightarrow> (js_value \<Rightarrow> byte list option) \<Rightarrow> (byte list \<Rightarrow> nat \<Rightarrow> byte)
     \<Rightarrow> jstring \<Rightarrow> js_error + jstring" where
  "decryptPII parse64 other ks encryptedText =
     (if encryptedText = [] then Inr encryptedText
      else (case decrypt_body parse64 other ks encryptedText of
              Inl e \<Rightarrow> Inr encryptedText
            | Inr decrypted \<Rightarrow> Inr decrypted))"

text \<open>\<^verbatim>\<open>isEncrypted\<close>: \<^verbatim>\<open>typeof null\<close> is \<^verbatim>\<open>'object'\<close> and the \<^verbatim>\<open>in\<close> operator throws on
  it, which the handler turns into \<^verbatim>\<open>false\<close>; an array is an object without the two
  keys.\<close>

definition isEncrypted :: "(jstring \<Rightarrow> js_value option) \<Rightarrow> jstring \<Rightarrow> bool" where
  "isEncrypted parse64 data =
     (if data = [] then False
      else (case parse64 data of
              None \<Rightarrow> False
            | Some parsed \<Rightarrow>
                (case parsed of
                   JObj members \<Rightarrow>
                     map_of members (ascii ''encrypted'') \<noteq> None
                     \<and> map_of members (ascii ''iv'') \<noteq> None
                 | _ \<Rightarrow> False)))"

text \<open>
  The inputs that \<^verbatim>\<open>decryptPII\<close> takes for a token: the text parses to an object whose
  \<^verbatim>\<open>iv\<close> gives 16 bytes and whose \<^verbatim>\<open>encrypted\<close> is a string of even length.  The result
  is the IV and the payload text.
\<close>

definition token_parts ::
  "(jstring \<Rightarrow> js_value option) \<Rightarrow> (js_value \<Rightarrow> byte list option) \<Rightarrow> jstring
     \<Rightarrow> (byte list \<times> jstring) option" where
  "token_parts parse64 other encryptedText =
     (case parse64 encryptedText of
        Some (JObj members) \<Rightarrow>
          (case buffer_from_hex other (map_of members (ascii ''iv'')) of
             Inl e \<Rightarrow> None
           | Inr iv \<Rightarrow>
               if length iv \<noteq> 16 then None
               else (case map_of members (ascii ''encrypted'') of
                       Some (JStr h) \<Rightarrow> if even (length h) then Some (iv, h) else None
                     | _ \<Rightarrow> None))
      | _ \<Rightarrow> None)"

text \<open>The IV text of a token object.\<close>

definition iv_text :: "js_value \<Rightarrow> jstring" where
  "iv_text v = (case v of JObj [e, (k, JStr h)] \<Rightarrow> h | _ \<Rightarrow> [])"

subsection \<open>A codec for the examples\<close>

text \<open>
  Base64 (RFC 4648) over the UTF-8 bytes of the JSON text of an object whose values are
  strings without escapes, which is what the tokens of \<^verbatim>\<open>encryptPII\<close> are.  The parser
  answers \<open>None\<close> on every other text.
\<close>

definition b64_char :: "nat \<Rightarrow> unit16" where
  "b64_char n =
     ascii ''ABCDEFGHIJKLMNOPQRSTUVWXYZabcdefghijklmnopqrstuvwxyz0123456789+/'' ! (n mod 64)"

definition b64_value :: "unit16 \<Rightarrow> nat option" where
  "b64_value c =
     (let n = unat c in
      if 65 \<le> n \<and> n \<le> 90 then Some (n - 65)
      else if 97 \<le> n \<and> n \<le> 122 then Some (n - 71)
      else if 48 \<le> n \<and> n \<le> 57 then Some (n + 4)
      else if n = 43 then Some 62
      else if n = 47 then Some 63
      else None)"

fun b64_encode :: "nat list \<Rightarrow> jstring" where
  "b64_encode [] = []"
| "b64_encode [a] = [b64_char (a div 4), b64_char ((a mod 4) * 16), 0x3D, 0x3D]"
| "b64_encode [a, b] =
     [b64_char (a div 4), b64_char ((a mod 4) * 16 + b div 16), b64_char ((b mod 16) * 4),
      0x3D]"
| "b64_encode (a # b # c # rest) =
     [b64_char (a div 4), b64_char ((a mod 4) * 16 + b div 16),
      b64_char ((b mod 16) * 4 + c div 64), b64_char (c mod 64)] @ b64_encode rest"

fun b64_decode :: "jstring \<Rightarrow> nat list" where
  "b64_decode (w # x # y # z # rest) =
     (case (b64_value w, b64_value x) of
        (Some p, Some q) \<Rightarrow>
          (case b64_value y of
             None \<Rightarrow> [p * 4 + q div 16]
           | Some s \<Rightarrow>
               (case b64_value z of
                  None \<Rightarrow> [p * 4 + q div 16, (q mod 16) * 16 + s div 4]
                | Some t \<Rightarrow>
                    [p * 4 + q div 16, (q mod 16) * 16 + s div 4, (s mod 4) * 64 + t]
                    @ b64_decode rest))
      | _ \<Rightarrow> [])"
| "b64_decode _ = []"

text \<open>The text between two double quotes, and what follows the closing quote.\<close>

fun read_string :: "jstring \<Rightarrow> (jstring \<times> jstring) option" where
  "read_string [] = None"
| "read_string (c # cs) =
     (if c = 0x22 then Some ([], cs)
      else if c = 0x5C then None
      else (case read_string cs of None \<Rightarrow> None | Some (s, rest) \<Rightarrow> Some (c # s, rest)))"

text \<open>The members of a flat object after the opening brace; the first argument bounds
  the number of members.\<close>

fun read_members :: "nat \<Rightarrow> jstring \<Rightarrow> (jstring \<times> js_value) list option" where
  "read_members 0 s = None"
| "read_members (Suc n) s =
     (case s of
        q # s1 \<Rightarrow>
          if q \<noteq> 0x22 then None
          else (case read_string s1 of
                  None \<Rightarrow> None
                | Some (k, s2) \<Rightarrow>
                    (case s2 of
                       c # q2 # s3 \<Rightarrow>
                         if c \<noteq> 0x3A \<or> q2 \<noteq> 0x22 then None
                         else (case read_string s3 of
                                 None \<Rightarrow> None
                               | Some (v, s4) \<Rightarrow>
                                   if s4 = [0x7D] then Some [(k, JStr v)]
                                   else (case s4 of
                                           d # s5 \<Rightarrow>
                                             if d \<noteq> 0x2C then None
                                             else (case read_members n s5 of
                                                     None \<Rightarrow> None
                                                   | Some ms \<Rightarrow> Some ((k, JStr v) # ms))
                                         | [] \<Rightarrow> None))
                     | _ \<Rightarrow> None))
      | [] \<Rightarrow> None)"

definition example_parse64 :: "jstring \<Rightarrow> js_value option" where
  "example_parse64 s =
     (case utf8_string (map of_nat (b64_decode s)) of
        [] \<Rightarrow> None
      | c # cs \<Rightarrow>
          if c \<noteq> 0x7B then None
          else (case read_members (length cs) cs of None \<Rightarrow> None | Some ms \<Rightarrow> Some (JObj ms)))"

fun json_members :: "(jstring \<times> js_value) list \<Rightarrow> jstring" where
  "json_members [] = []"
| "json_members ((k, JStr v) # ms) =
     [0x22] @ k @ [0x22, 0x3A, 0x22] @ v @ [0x22]
     @ (if ms = [] then [] else 0x2C # json_members ms)"
| "json_members (m # ms) = json_members ms"

definition example_stringify64 :: "js_value \<Rightarrow> jstring" where
  "example_stringify64 v =
     (case v of
        JObj ms \<Rightarrow> b64_encode (map unat (utf8_bytes ([0x7B] @ json_members ms @ [0x7D])))
      | _ \<Rightarrow> b64_encode (map unat (utf8_bytes (ascii ''null''))))"

text \<open>A key stream for the examples.\<close>

definition example_ks :: "byte list \<Rightarrow> nat \<Rightarrow> byte" where
  "example_ks iv i = of_nat (7 * i + 1) XOR (if iv = [] then 0 else iv ! (i mod length iv))"

text \<open>In the examples every \<^verbatim>\<open>iv\<close> is a string, so nothing else is ever made a buffer.\<close>

definition strings_only :: "js_value \<Rightarrow> byte list option" where
  "strings_only v = None"

text \<open>Two IVs and a plaintext for the examples: the text \<^verbatim>\<open>a@b.c\<close> followed by
  U+00E9 and by U+1F600, which is a pair of surrogates.\<close>

definition example_iv :: "byte list" where
  "example_iv = [0, 1, 2, 3, 4, 5, 6, 7, 8, 9, 10, 11, 12, 13, 14, 15]"

definition example_iv' :: "byte list" where
  "example_iv' = [9, 1, 2, 3, 4, 5, 6, 7, 8, 9, 10, 11, 12, 13, 14, 15]"

definition example_plaintext :: jstring where
  "example_plaintext = ascii ''a@b.c'' @ [0xE9, 0xD83D, 0xDE00]"


section \<open>Regular expressions of the runtime\<close>

text \<open>
  The patterns of the two filters, as a datatype, with the backtracking semantics of
  the runtime: \<open>ends\<close> lists the positions at which a match that starts at a position
  can end, in the order in which the matcher tries them (a greedy star tries the
  longer repetition first), so the first match is the head of the list.  A position
  is the character before it (for \<^verbatim>\<open>^\<close> and \<^verbatim>\<open>\b\<close>) and the rest of the input.
\<close>

datatype regex =
    Chr char
  | OneOf "char list"
  | NoneOf "char list"
  | WordChar
  | Space
  | AnyChar
  | Eps
  | Seq regex regex
  | Alt regex regex
  | Star regex
  | NotAhead regex
  | WordBoundary
  | Bol
  | Eol

type_synonym position = "char option \<times> string"

text \<open>\<^verbatim>\<open>\w\<close> is \<^verbatim>\<open>[A-Za-z0-9_]\<close>; \<^verbatim>\<open>\s\<close> is the ASCII white space (the white space beyond
  ASCII is outside the byte strings of the model); \<^verbatim>\<open>.\<close> is every character but the
  line terminators.\<close>

definition is_word_char :: "char \<Rightarrow> bool" where
  "is_word_char c =
     (let n = (of_char c :: nat) in
      (48 \<le> n \<and> n \<le> 57) \<or> (65 \<le> n \<and> n \<le> 90) \<or> (97 \<le> n \<and> n \<le> 122) \<or> n = 95)"

definition is_space_char :: "char \<Rightarrow> bool" where
  "is_space_char c = (let n = (of_char c :: nat) in (9 \<le> n \<and> n \<le> 13) \<or> n = 32)"

definition is_line_terminator :: "char \<Rightarrow> bool" where
  "is_line_terminator c = (let n = (of_char c :: nat) in n = 10 \<or> n = 13)"

text \<open>Does a one-character pattern accept the character?  With the flag \<^verbatim>\<open>i\<close> a
  literal is compared without regard to case.\<close>

fun accepts :: "bool \<Rightarrow> regex \<Rightarrow> char \<Rightarrow> bool" where
  "accepts ci (Chr c) x = (if ci then lower_char x = lower_char c else x = c)"
| "accepts ci (OneOf cs) x = (x \<in> set cs)"
| "accepts ci (NoneOf cs) x = (x \<notin> set cs)"
| "accepts ci WordChar x = is_word_char x"
| "accepts ci Space x = is_space_char x"
| "accepts ci AnyChar x = (\<not> is_line_terminator x)"
| "accepts ci r x = False"

definition one_char :: "bool \<Rightarrow> regex \<Rightarrow> position \<Rightarrow> position list" where
  "one_char ci r pos =
     (case snd pos of
        [] \<Rightarrow> []
      | x # xs \<Rightarrow> if accepts ci r x then [(Some x, xs)] else [])"

definition at_word_boundary :: "position \<Rightarrow> bool" where
  "at_word_boundary pos =
     ((case fst pos of None \<Rightarrow> False | Some c \<Rightarrow> is_word_char c)
      \<noteq> (case snd pos of [] \<Rightarrow> False | c # cs \<Rightarrow> is_word_char c))"

text \<open>The repetitions of a star: another round is tried before stopping, and a round
  that consumes nothing is not repeated.  The first argument bounds the number of
  rounds; the length of the rest of the input is enough.\<close>

fun star_ends :: "nat \<Rightarrow> (position \<Rightarrow> position list) \<Rightarrow> position \<Rightarrow> position list" where
  "star_ends 0 f pos = [pos]"
| "star_ends (Suc n) f pos =
     concat (map (\<lambda>q. if length (snd q) < length (snd pos) then star_ends n f q else [])
                 (f pos))
     @ [pos]"

fun ends :: "bool \<Rightarrow> regex \<Rightarrow> position \<Rightarrow> position list" where
  "ends ci Eps pos = [pos]"
| "ends ci (Seq a b) pos = concat (map (ends ci b) (ends ci a pos))"
| "ends ci (Alt a b) pos = ends ci a pos @ ends ci b pos"
| "ends ci (Star a) pos = star_ends (length (snd pos)) (ends ci a) pos"
| "ends ci (NotAhead a) pos = (if ends ci a pos = [] then [pos] else [])"
| "ends ci WordBoundary pos = (if at_word_boundary pos then [pos] else [])"
| "ends ci Bol pos = (if fst pos = None then [pos] else [])"
| "ends ci Eol pos = (if snd pos = [] then [pos] else [])"
| "ends ci r pos = one_char ci r pos"

text \<open>The pattern of a literal text, \<^verbatim>\<open>r+\<close>, \<^verbatim>\<open>r?\<close> and \<^verbatim>\<open>r{2,}\<close>.\<close>

fun lits :: "string \<Rightarrow> regex" where
  "lits [] = Eps"
| "lits (c # cs) = Seq (Chr c) (lits cs)"

definition Plus :: "regex \<Rightarrow> regex" where
  "Plus r = Seq r (Star r)"

definition Opt :: "regex \<Rightarrow> regex" where
  "Opt r = Alt r Eps"

definition AtLeast2 :: "regex \<Rightarrow> regex" where
  "AtLeast2 r = Seq r (Seq r (Star r))"

text \<open>The first match at or after a position: the number of characters that are left
  after its end.\<close>

fun search :: "bool \<Rightarrow> regex \<Rightarrow> char option \<Rightarrow> string \<Rightarrow> nat option" where
  "search ci r p [] =
     (case ends ci r (p, []) of [] \<Rightarrow> None | q # qs \<Rightarrow> Some (length (snd q)))"
| "search ci r p (x # xs) =
     (case ends ci r (p, x # xs) of
        [] \<Rightarrow> search ci r (Some x) xs
      | q # qs \<Rightarrow> Some (length (snd q)))"

text \<open>The character before the position that is reached from a position with \<open>p\<close>
  before it by reading the text \<open>u\<close>.\<close>

fun after :: "char option \<Rightarrow> string \<Rightarrow> char option" where
  "after p [] = p"
| "after p (x # u) = after (Some x) u"

text \<open>A regular expression object: its pattern and the flags \<^verbatim>\<open>i\<close> and \<^verbatim>\<open>g\<close>.  Its
  \<^verbatim>\<open>lastIndex\<close> is state, kept beside it.\<close>

record js_regex =
  pattern :: regex
  ignoreCase :: bool
  global :: bool

definition matches :: "js_regex \<Rightarrow> string \<Rightarrow> bool" where
  "matches r s = (search (ignoreCase r) (pattern r) None s \<noteq> None)"

text \<open>
  \<^verbatim>\<open>RegExp.prototype.test\<close>.  A global expression starts the search at its
  \<^verbatim>\<open>lastIndex\<close>, leaves the end of the match there, and resets it to 0 when nothing
  matches from there on; an expression without the flag always searches from the
  start and leaves \<^verbatim>\<open>lastIndex\<close> alone.  The result is the answer and the new
  \<^verbatim>\<open>lastIndex\<close>.
\<close>

definition regex_test :: "js_regex \<Rightarrow> nat \<Rightarrow> string \<Rightarrow> bool \<times> nat" where
  "regex_test r lastIndex s =
     (if global r
      then (if lastIndex > length s then (False, 0)
            else (case search (ignoreCase r) (pattern r)
                         (if lastIndex = 0 then None else Some (s ! (lastIndex - 1)))
                         (drop lastIndex s) of
                    None \<Rightarrow> (False, 0)
                  | Some left \<Rightarrow> (True, length s - left)))
      else (matches r s, lastIndex))"

text \<open>The loop \<^verbatim>\<open>for (const pattern of PATTERNS) if (pattern.test(s)) ...\<close>: it stops at
  the first expression that matches.  The second argument and the second result are
  the \<^verbatim>\<open>lastIndex\<close> values of the expressions of the list.\<close>

fun test_any :: "js_regex list \<Rightarrow> nat list \<Rightarrow> string \<Rightarrow> bool \<times> nat list" where
  "test_any (r # rs) (i # is) s =
     (let (hit, i') = regex_test r i s
      in if hit then (True, i' # is)
         else (let (hit', is') = test_any rs is s in (hit', i' # is')))"
| "test_any rs is s = (False, is)"

definition global_ci :: "regex \<Rightarrow> js_regex" where
  "global_ci r = \<lparr>pattern = r, ignoreCase = True, global = True\<rparr>"

definition global_cs :: "regex \<Rightarrow> js_regex" where
  "global_cs r = \<lparr>pattern = r, ignoreCase = False, global = True\<rparr>"

definition plain_cs :: "regex \<Rightarrow> js_regex" where
  "plain_cs r = \<lparr>pattern = r, ignoreCase = False, global = False\<rparr>"

text \<open>\<^verbatim>\<open>s.replace(/literal/g, rep)\<close>: every occurrence, from left to right.  The first
  argument bounds the number of steps; the length of the text is enough.\<close>

fun replace_steps :: "nat \<Rightarrow> 'a list \<Rightarrow> 'a list \<Rightarrow> 'a list \<Rightarrow> 'a list" where
  "replace_steps 0 pat rep s = s"
| "replace_steps (Suc n) pat rep [] = []"
| "replace_steps (Suc n) pat rep (c # cs) =
     (if pat \<noteq> [] \<and> prefix pat (c # cs)
      then rep @ replace_steps n pat rep (drop (length pat) (c # cs))
      else c # replace_steps n pat rep cs)"

definition replace_all :: "'a list \<Rightarrow> 'a list \<Rightarrow> 'a list \<Rightarrow> 'a list" where
  "replace_all pat rep s = replace_steps (length s) pat rep s"

text \<open>The state in which no expression of a list has a search position behind it, as
  when the module has just been loaded.\<close>

definition fresh :: "'a list \<Rightarrow> nat list" where
  "fresh rs = replicate (length rs) 0"


section \<open>Content sanitizer: XSS (\<^verbatim>\<open>xss-protection.ts\<close>)\<close>

subsection \<open>Regular expressions on code units\<close>

text \<open>
  The sanitizer matches its patterns against arbitrary user text, so here the matcher
  of the previous section is written again for strings of UTF-16 code units, with the
  constructs that the ten patterns use.  The literal characters of the patterns are
  ASCII.
\<close>

datatype uregex =
    UChr unit16
  | UNoneOf "unit16 list"
  | UWordChar
  | USpace
  | UEps
  | USeq uregex uregex
  | UStar uregex
  | UNotAhead uregex
  | UWordBoundary

type_synonym uposition = "unit16 option \<times> jstring"

text \<open>
  \<^verbatim>\<open>\w\<close> is \<^verbatim>\<open>[A-Za-z0-9_]\<close> (the expressions have no flag \<^verbatim>\<open>u\<close>).  \<^verbatim>\<open>\s\<close> is the white
  space and the line terminators of the language: tab, line feed, vertical tab, form
  feed, carriage return, space, U+00A0, U+1680, U+2000 to U+200A, U+2028, U+2029,
  U+202F, U+205F, U+3000 and U+FEFF.
\<close>

definition is_word_unit :: "unit16 \<Rightarrow> bool" where
  "is_word_unit c =
     (let n = unat c in
      (48 \<le> n \<and> n \<le> 57) \<or> (65 \<le> n \<and> n \<le> 90) \<or> (97 \<le> n \<and> n \<le> 122) \<or> n = 95)"

definition is_space_unit :: "unit16 \<Rightarrow> bool" where
  "is_space_unit c =
     ((0x09 \<le> c \<and> c \<le> 0x0D) \<or> c = 0x20 \<or> c = 0xA0 \<or> c = 0x1680
      \<or> (0x2000 \<le> c \<and> c \<le> 0x200A) \<or> c = 0x2028 \<or> c = 0x2029 \<or> c = 0x202F
      \<or> c = 0x205F \<or> c = 0x3000 \<or> c = 0xFEFF)"

text \<open>
  With the flag \<^verbatim>\<open>i\<close> two code units are compared by their upper-case forms, and a unit
  beyond ASCII is never taken for an ASCII one; so against an ASCII literal the
  comparison is the one of the ASCII letters without regard to case.
\<close>

definition lower_unit :: "unit16 \<Rightarrow> unit16" where
  "lower_unit c = (if 65 \<le> unat c \<and> unat c \<le> 90 then c + 32 else c)"

fun u_accepts :: "bool \<Rightarrow> uregex \<Rightarrow> unit16 \<Rightarrow> bool" where
  "u_accepts ci (UChr c) x = (if ci then lower_unit x = lower_unit c else x = c)"
| "u_accepts ci (UNoneOf cs) x = (x \<notin> set cs)"
| "u_accepts ci UWordChar x = is_word_unit x"
| "u_accepts ci USpace x = is_space_unit x"
| "u_accepts ci r x = False"

definition u_one_char :: "bool \<Rightarrow> uregex \<Rightarrow> uposition \<Rightarrow> uposition list" where
  "u_one_char ci r pos =
     (case snd pos of
        [] \<Rightarrow> []
      | x # xs \<Rightarrow> if u_accepts ci r x then [(Some x, xs)] else [])"

definition u_at_word_boundary :: "uposition \<Rightarrow> bool" where
  "u_at_word_boundary pos =
     ((case fst pos of None \<Rightarrow> False | Some c \<Rightarrow> is_word_unit c)
      \<noteq> (case snd pos of [] \<Rightarrow> False | c # cs \<Rightarrow> is_word_unit c))"

fun u_star_ends :: "nat \<Rightarrow> (uposition \<Rightarrow> uposition list) \<Rightarrow> uposition \<Rightarrow> uposition list" where
  "u_star_ends 0 f pos = [pos]"
| "u_star_ends (Suc n) f pos =
     concat (map (\<lambda>q. if length (snd q) < length (snd pos) then u_star_ends n f q else [])
                 (f pos))
     @ [pos]"

fun u_ends :: "bool \<Rightarrow> uregex \<Rightarrow> uposition \<Rightarrow> uposition list" where
  "u_ends ci UEps pos = [pos]"
| "u_ends ci (USeq a b) pos = concat (map (u_ends ci b) (u_ends ci a pos))"
| "u_ends ci (UStar a) pos = u_star_ends (length (snd pos)) (u_ends ci a) pos"
| "u_ends ci (UNotAhead a) pos = (if u_ends ci a pos = [] then [pos] else [])"
| "u_ends ci UWordBoundary pos = (if u_at_word_boundary pos then [pos] else [])"
| "u_ends ci r pos = u_one_char ci r pos"

text \<open>The pattern of a literal text, and \<^verbatim>\<open>r+\<close>.\<close>

fun u_lits :: "jstring \<Rightarrow> uregex" where
  "u_lits [] = UEps"
| "u_lits (c # cs) = USeq (UChr c) (u_lits cs)"

definition UPlus :: "uregex \<Rightarrow> uregex" where
  "UPlus r = USeq r (UStar r)"

fun u_search :: "bool \<Rightarrow> uregex \<Rightarrow> unit16 option \<Rightarrow> jstring \<Rightarrow> nat option" where
  "u_search ci r p [] =
     (case u_ends ci r (p, []) of [] \<Rightarrow> None | q # qs \<Rightarrow> Some (length (snd q)))"
| "u_search ci r p (x # xs) =
     (case u_ends ci r (p, x # xs) of
        [] \<Rightarrow> u_search ci r (Some x) xs
      | q # qs \<Rightarrow> Some (length (snd q)))"


text \<open>A regular expression object of the sanitizer: its pattern and the flags \<^verbatim>\<open>i\<close> and
  \<^verbatim>\<open>g\<close>; its \<^verbatim>\<open>lastIndex\<close>, counted in code units, is state and kept beside it.\<close>

record RegExp =
  source :: uregex
  flag_i :: bool
  flag_g :: bool

definition u_matches :: "RegExp \<Rightarrow> jstring \<Rightarrow> bool" where
  "u_matches r s = (u_search (flag_i r) (source r) None s \<noteq> None)"

definition RegExp_test :: "RegExp \<Rightarrow> nat \<Rightarrow> jstring \<Rightarrow> bool \<times> nat" where
  "RegExp_test r lastIndex s =
     (if flag_g r
      then (if lastIndex > length s then (False, 0)
            else (case u_search (flag_i r) (source r)
                         (if lastIndex = 0 then None else Some (s ! (lastIndex - 1)))
                         (drop lastIndex s) of
                    None \<Rightarrow> (False, 0)
                  | Some left \<Rightarrow> (True, length s - left)))
      else (u_matches r s, lastIndex))"

text \<open>The loop \<^verbatim>\<open>for (const pattern of XSS_PATTERNS) if (pattern.test(s)) throw ...\<close>.\<close>

fun test_patterns :: "RegExp list \<Rightarrow> nat list \<Rightarrow> jstring \<Rightarrow> bool \<times> nat list" where
  "test_patterns (r # rs) (i # is) s =
     (let (hit, i') = RegExp_test r i s
      in if hit then (True, i' # is)
         else (let (hit', is') = test_patterns rs is s in (hit', i' # is')))"
| "test_patterns rs is s = (False, is)"

definition gi :: "uregex \<Rightarrow> RegExp" where
  "gi r = \<lparr>source = r, flag_i = True, flag_g = True\<rparr>"

subsection \<open>The sanitizer\<close>

text \<open>\<^verbatim>\<open>XSS_PATTERNS\<close>; all ten carry the flags \<^verbatim>\<open>gi\<close>.\<close>

definition script_pattern :: uregex where
  "script_pattern =
     USeq (u_lits (ascii ''<script''))
       (USeq UWordBoundary
         (USeq (UStar (UNoneOf [0x3C]))
           (USeq (UStar (USeq (UNotAhead (u_lits (ascii ''</script>'')))
                         (USeq (UChr 0x3C) (UStar (UNoneOf [0x3C])))))
             (u_lits (ascii ''</script>'')))))"

definition XSS_PATTERNS :: "RegExp list" where
  "XSS_PATTERNS =
     [gi script_pattern,
      gi (u_lits (ascii ''javascript:'')),
      gi (u_lits (ascii ''vbscript:'')),
      gi (USeq (u_lits (ascii ''on'')) (USeq (UPlus UWordChar) (USeq (UStar USpace) (UChr 0x3D)))),
      gi (USeq (u_lits (ascii ''expression'')) (USeq (UStar USpace) (UChr 0x28))),
      gi (USeq (u_lits (ascii ''url'')) (USeq (UStar USpace) (UChr 0x28))),
      gi (u_lits (ascii ''&lt;script'')),
      gi (u_lits (ascii ''&lt;iframe'')),
      gi (u_lits (ascii ''data:text/html'')),
      gi (USeq (UChr 0x3C)
            (USeq (UStar USpace)
               (USeq (u_lits (ascii ''meta'')) (USeq (UPlus USpace) (u_lits (ascii ''http-equiv''))))))]"

text \<open>Step 3 of \<^verbatim>\<open>sanitizeXSS\<close>: the six replacements, one after the other.\<close>

definition html_decode :: "jstring \<Rightarrow> jstring" where
  "html_decode s =
     replace_all (ascii ''&#x2F;'') (ascii ''/'')
       (replace_all (ascii ''&#x27;'') [0x27]
         (replace_all (ascii ''&quot;'') [0x22]
           (replace_all (ascii ''&gt;'') (ascii ''>'')
             (replace_all (ascii ''&lt;'') (ascii ''<'')
               (replace_all (ascii ''&amp;'') (ascii ''&'') s)))))"

text \<open>Whatever is thrown inside \<^verbatim>\<open>sanitizeXSS\<close> (a detected pattern, a pattern that
  is there after the decoding, a result that is too long) leaves it as the same
  error.\<close>

datatype xss_error = ContentNotAllowed

text \<open>
  \<^verbatim>\<open>sanitizeXSS\<close>.  \<open>purify\<close> is the call \<^verbatim>\<open>DOMPurify.sanitize(input, PURIFY_CONFIG)\<close> of the
  library, a parameter of the model.  The state is the list of the \<^verbatim>\<open>lastIndex\<close> values
  of \<^verbatim>\<open>XSS_PATTERNS\<close>, which are module-level objects and outlive the call.  The length
  of a string is the number of its code units.
\<close>

definition sanitizeXSS ::
  "(jstring \<Rightarrow> jstring) \<Rightarrow> nat list \<Rightarrow> jstring \<Rightarrow> (xss_error + jstring) \<times> nat list" where
  "sanitizeXSS purify st input =
     (if input = [] then (Inr input, st)
      else
        let (hit, st1) = test_patterns XSS_PATTERNS st input in
        if hit then (Inl ContentNotAllowed, st1)
        else
          let sanitized = html_decode (purify input);
              (hit2, st2) = test_patterns XSS_PATTERNS st1 sanitized
          in if hit2 then (Inl ContentNotAllowed, st2)
             else if length sanitized > 10000 then (Inl ContentNotAllowed, st2)
             else (Inr sanitized, st2))"


text \<open>A purifier for the examples: it removes every tag, from \<^verbatim>\<open><\<close> to the next \<^verbatim>\<open>>\<close>, and
  keeps the text between the tags.\<close>

fun strip_tags :: "bool \<Rightarrow> jstring \<Rightarrow> jstring" where
  "strip_tags in_tag [] = []"
| "strip_tags False (c # cs) = (if c = 0x3C then strip_tags True cs else c # strip_tags False cs)"
| "strip_tags True (c # cs) = (if c = 0x3E then strip_tags False cs else strip_tags True cs)"

definition example_purify :: "jstring \<Rightarrow> jstring" where
  "example_purify s = strip_tags False s"


section \<open>Content sanitizer: path traversal (\<^verbatim>\<open>path-traversal-protection.ts\<close>)\<close>

subsection \<open>Functions of the runtime\<close>

text \<open>\<^verbatim>\<open>String.prototype.trim\<close>, on the ASCII white space.\<close>

definition trim :: "string \<Rightarrow> string" where
  "trim s = rev (dropWhile is_space_char (rev (dropWhile is_space_char s)))"

text \<open>
  \<^verbatim>\<open>decodeURIComponent\<close>; \<open>None\<close> is the \<^verbatim>\<open>URIError\<close>.  An escape below 0x80 is the
  character; a higher first octet announces a UTF-8 sequence of two to four octets,
  whose continuation octets must follow as escapes and which must be the encoding of
  a code point (not overlong, not a surrogate, not above U+10FFFF).
\<close>

fun read_octet :: "string \<Rightarrow> (nat \<times> string) option" where
  "read_octet (c # h1 # h2 # rest) =
     (if c \<noteq> CHR ''%'' then None
      else (case (hex_value h1, hex_value h2) of
              (Some a, Some b) \<Rightarrow> Some (16 * a + b, rest)
            | _ \<Rightarrow> None))"
| "read_octet _ = None"

fun read_continuations :: "nat \<Rightarrow> string \<Rightarrow> (nat list \<times> string) option" where
  "read_continuations 0 s = Some ([], s)"
| "read_continuations (Suc k) s =
     (case read_octet s of
        None \<Rightarrow> None
      | Some (b, rest) \<Rightarrow>
          if b < 128 \<or> b \<ge> 192 then None
          else (case read_continuations k rest of
                  None \<Rightarrow> None
                | Some (bs, rest') \<Rightarrow> Some (b # bs, rest')))"

definition utf8_sequence_length :: "nat \<Rightarrow> nat" where
  "utf8_sequence_length b =
     (if 192 \<le> b \<and> b < 224 then 2
      else if 224 \<le> b \<and> b < 240 then 3
      else if 240 \<le> b \<and> b < 248 then 4
      else 0)"

definition valid_utf8_sequence :: "nat \<Rightarrow> nat list \<Rightarrow> bool" where
  "valid_utf8_sequence b bs =
     (case bs of
        [] \<Rightarrow> False
      | b1 # _ \<Rightarrow>
          if b < 194 then False
          else if b = 224 then b1 \<ge> 160
          else if b = 237 then b1 < 160
          else if b = 240 then b1 \<ge> 144
          else if b = 244 then b1 < 144
          else b < 244)"

fun uri_decode :: "nat \<Rightarrow> string \<Rightarrow> string option" where
  "uri_decode n [] = Some []"
| "uri_decode 0 (c # cs) = None"
| "uri_decode (Suc n) (c # cs) =
     (if c \<noteq> CHR ''%'' then map_option ((#) c) (uri_decode n cs)
      else (case read_octet (c # cs) of
              None \<Rightarrow> None
            | Some (b, rest) \<Rightarrow>
                if b < 128 then map_option ((#) (char_of b)) (uri_decode n rest)
                else if utf8_sequence_length b = 0 then None
                else (case read_continuations (utf8_sequence_length b - 1) rest of
                        None \<Rightarrow> None
                      | Some (bs, rest') \<Rightarrow>
                          if valid_utf8_sequence b bs
                          then map_option ((@) (map char_of (b # bs))) (uri_decode n rest')
                          else None)))"

text \<open>The first argument of \<open>uri_decode\<close> bounds the number of steps; the length of
  the text is enough.\<close>

definition decodeURIComponent :: "string \<Rightarrow> string option" where
  "decodeURIComponent s = uri_decode (length s) s"

text \<open>The components of a POSIX path between the slashes.\<close>

fun split_slash :: "string \<Rightarrow> string list" where
  "split_slash [] = [[]]"
| "split_slash (c # cs) =
     (if c = CHR ''/'' then [] # split_slash cs
      else (case split_slash cs of
              [] \<Rightarrow> [[c]]
            | seg # segs \<Rightarrow> (c # seg) # segs))"

text \<open>\<^verbatim>\<open>normalizeString\<close> of the \<^verbatim>\<open>path\<close> module: empty components and \<^verbatim>\<open>.\<close> are
  dropped, \<^verbatim>\<open>..\<close> removes the component before it, or stays when there is none and the
  path is relative.  The second argument is the result so far, last component first.\<close>

fun normalize_segments :: "bool \<Rightarrow> string list \<Rightarrow> string list \<Rightarrow> string list" where
  "normalize_segments allowAboveRoot acc [] = rev acc"
| "normalize_segments allowAboveRoot acc (seg # segs) =
     (if seg = [] \<or> seg = ''.'' then normalize_segments allowAboveRoot acc segs
      else if seg = ''..''
      then (case acc of
              [] \<Rightarrow> normalize_segments allowAboveRoot (if allowAboveRoot then [''..''] else []) segs
            | a # as \<Rightarrow>
                if a = ''..'' then normalize_segments allowAboveRoot (''..'' # a # as) segs
                else normalize_segments allowAboveRoot as segs)
      else normalize_segments allowAboveRoot (seg # acc) segs)"

fun join_slash :: "string list \<Rightarrow> string" where
  "join_slash [] = []"
| "join_slash [s] = s"
| "join_slash (s # t # ss) = s @ ''/'' @ join_slash (t # ss)"

definition normalizeString :: "string \<Rightarrow> bool \<Rightarrow> string" where
  "normalizeString p allowAboveRoot = join_slash (normalize_segments allowAboveRoot [] (split_slash p))"

text \<open>\<^verbatim>\<open>path.normalize\<close> (POSIX).\<close>

definition path_normalize :: "string \<Rightarrow> string" where
  "path_normalize p =
     (if p = [] then ''.''
      else
        let isAbsolute = (hd p = CHR ''/'');
            trailingSeparator = (last p = CHR ''/'');
            q = normalizeString p (\<not> isAbsolute)
        in if q = []
           then (if isAbsolute then ''/'' else if trailingSeparator then ''./'' else ''.'')
           else (if isAbsolute then ''/'' else []) @ q
                @ (if trailingSeparator then ''/'' else []))"

text \<open>\<^verbatim>\<open>path.resolve\<close> (POSIX): the arguments are taken from the right until one is
  absolute, the working directory \<open>cwd\<close> comes last; empty arguments are skipped.  The
  first argument of \<open>resolve_acc\<close> lists the paths in the order in which the loop visits
  them.\<close>

fun resolve_acc :: "string list \<Rightarrow> string \<Rightarrow> string \<times> bool" where
  "resolve_acc [] resolvedPath = (resolvedPath, False)"
| "resolve_acc (p # ps) resolvedPath =
     (if p = [] then resolve_acc ps resolvedPath
      else if hd p = CHR ''/'' then (p @ ''/'' @ resolvedPath, True)
      else resolve_acc ps (p @ ''/'' @ resolvedPath))"

definition path_resolve :: "string \<Rightarrow> string list \<Rightarrow> string" where
  "path_resolve cwd args =
     (let (resolvedPath, resolvedAbsolute) = resolve_acc (rev args @ [cwd]) [];
          q = normalizeString resolvedPath (\<not> resolvedAbsolute)
      in if resolvedAbsolute then ''/'' @ q else if q \<noteq> [] then q else ''.'')"

text \<open>\<^verbatim>\<open>path.basename\<close> and \<^verbatim>\<open>path.extname\<close> (POSIX): trailing slashes do not count;
  the extension starts at the last dot of the last component, unless that dot is its
  first character or the component is \<^verbatim>\<open>..\<close>.\<close>

definition path_basename :: "string \<Rightarrow> string" where
  "path_basename p =
     rev (takeWhile (\<lambda>c. c \<noteq> CHR ''/'') (dropWhile (\<lambda>c. c = CHR ''/'') (rev p)))"

definition path_extname :: "string \<Rightarrow> string" where
  "path_extname p =
     (let b = path_basename p; x = takeWhile (\<lambda>c. c \<noteq> CHR ''.'') (rev b)
      in if length x = length b then []
         else if length x + 1 = length b then []
         else if b = ''..'' then []
         else ''.'' @ rev x)"

subsection \<open>The tables of the module\<close>

definition backslash :: char where
  "backslash = CHR 0x5C"

definition dot :: regex where
  "dot = Chr CHR ''.''"

text \<open>\<^verbatim>\<open>DANGEROUS_PATH_PATTERNS\<close>, in the order of the source; two of the expressions
  carry no flag.\<close>

definition DANGEROUS_PATH_PATTERNS :: "js_regex list" where
  "DANGEROUS_PATH_PATTERNS =
     [global_cs (lits ''..''),
      plain_cs (Alt (lits ''./'') (Seq dot (Chr backslash))),
      global_cs (AtLeast2 dot),
      global_cs (lits ''/..''),
      global_cs (Seq (Chr backslash) (Seq (lits ''..'') (Opt (Chr backslash)))),
      plain_cs (Alt (lits ''../'') (Seq (lits ''..'') (Chr backslash))),
      global_cs (lits ''../''),
      global_cs (Seq (Chr CHR ''/'') (AtLeast2 dot)),
      global_cs (Seq (Chr backslash) (Seq (AtLeast2 dot) (Opt (Chr backslash)))),
      global_ci (lits ''%2e%2e''),
      global_ci (lits ''%252e%252e''),
      global_ci (lits ''%c0%ae%c0%ae''),
      global_ci (lits ''%e0%80%ae%e0%80%ae''),
      global_cs (lits ''..''),
      global_ci (lits ''.%2e''),
      global_ci (lits ''%2e.''),
      global_ci (lits ''.%252e''),
      global_ci (lits ''%252e.''),
      global_cs (Seq (Chr CHR ''?'') (Seq (Star AnyChar) (lits ''..''))),
      global_cs (Seq (Chr CHR ''#'') (Seq (Star AnyChar) (lits ''..''))),
      global_ci (lits ''file:''),
      global_ci (Seq Bol (lits ''/proc/'')),
      global_ci (Seq Bol (lits ''/dev/'')),
      global_ci (Seq Bol (lits ''/sys/'')),
      global_ci (Seq Bol (Seq (lits ''C:'') (Seq (Chr backslash)
                   (Seq (lits ''Windows'') (Chr backslash))))),
      global_ci (Seq Bol (Seq (lits ''C:'') (Seq (Chr backslash)
                   (Seq (lits ''Program Files'') (Chr backslash))))),
      global_ci (Seq Bol (lits ''/etc/'')),
      global_ci (Seq Bol (lits ''/var/'')),
      global_ci (Seq Bol (lits ''/root/'')),
      global_ci (Seq Bol (Seq (lits ''/home/'') (Seq (Star AnyChar) (lits ''/.'')))),
      global_cs (Seq (lits ''..'') (OneOf [backslash, CHR ''/''])),
      global_cs (Seq (OneOf [backslash, CHR ''/''])
                   (Seq (lits ''..'') (OneOf [backslash, CHR ''/'']))),
      global_cs (Seq Bol (lits ''..'')),
      global_cs (Seq (lits ''..'') Eol)]"

definition DANGEROUS_EXTENSIONS :: "string list" where
  "DANGEROUS_EXTENSIONS =
     [''.exe'', ''.bat'', ''.cmd'', ''.scr'', ''.vbs'', ''.js'', ''.jar'',
      ''.sh'', ''.ps1'', ''.py'', ''.php'', ''.asp'', ''.aspx'', ''.jsp'',
      ''.dll'', ''.sys'', ''.ini'', ''.cfg'', ''.conf'', ''.htaccess'',
      ''.passwd'', ''.shadow'', ''.key'', ''.pem'', ''.crt'']"

definition FORBIDDEN_DIRECTORIES :: "string list" where
  "FORBIDDEN_DIRECTORIES =
     [''/etc'', ''/proc'', ''/dev'', ''/sys'', ''/root'', ''/boot'',
      ''/var/log'', ''/var/lib'', ''/usr/bin'', ''/usr/sbin'',
      ''C:'' @ [backslash] @ ''Windows'', ''C:'' @ [backslash] @ ''Program Files'',
      ''C:'' @ [backslash] @ ''Program Files (x86)'',
      ''C:'' @ [backslash] @ ''Users'' @ [backslash] @ ''Default'',
      ''C:'' @ [backslash] @ ''ProgramData'',
      ''C:'' @ [backslash] @ ''System Volume Information'',
      ''/System'', ''/Library'', ''/private'', ''/usr/local/bin'']"

definition FORBIDDEN_FILENAMES :: "string list" where
  "FORBIDDEN_FILENAMES =
     [''passwd'', ''shadow'', ''hosts'', ''fstab'', ''sudoers'',
      ''web.config'', ''.htaccess'', ''.htpasswd'', ''.env'',
      ''config.php'', ''wp-config.php'', ''database.yml'',
      ''secrets.json'', ''private.key'', ''id_rsa'', ''id_dsa'']"

text \<open>The expression \<^verbatim>\<open>/[<>:"|?*\x00-\x1f\x7f]/g\<close> is created anew by every call, so
  it always searches from the start.\<close>

definition invalidChars :: js_regex where
  "invalidChars =
     global_cs (OneOf (''<>:'' @ [CHR 0x22] @ ''|?*'' @ map char_of [0..<32::nat] @ [CHR 0x7F]))"

subsection \<open>The filter\<close>

datatype path_severity = Low | Medium | High | Critical

record PathValidationResult =
  isValid :: bool
  sanitized :: "string option"
  rejection :: "string option"
  severity :: path_severity

definition rejected :: "string \<Rightarrow> path_severity \<Rightarrow> PathValidationResult" where
  "rejected why sev = \<lparr>isValid = False, sanitized = None, rejection = Some why, severity = sev\<rparr>"

text \<open>The decoding loop: at most five rounds, until a round changes nothing or the
  decoder throws (the text of the round before is kept).\<close>

fun decode_loop :: "nat \<Rightarrow> string \<Rightarrow> string \<Rightarrow> string" where
  "decode_loop 0 decodedPath previousPath = decodedPath"
| "decode_loop (Suc n) decodedPath previousPath =
     (if decodedPath = previousPath then decodedPath
      else (case decodeURIComponent decodedPath of
              None \<Rightarrow> decodedPath
            | Some d \<Rightarrow> decode_loop n d decodedPath))"

text \<open>
  \<^verbatim>\<open>sanitizeFilePath\<close>.  The state is the list of the \<^verbatim>\<open>lastIndex\<close> values of
  \<^verbatim>\<open>DANGEROUS_PATH_PATTERNS\<close>, which are module-level objects.  Nothing in the body
  throws but the decoder, whose exception the loop catches.
\<close>

definition sanitizeFilePath :: "nat list \<Rightarrow> string \<Rightarrow> PathValidationResult \<times> nat list" where
  "sanitizeFilePath st filePath =
     (if filePath = [] then (rejected ''Chemin invalide'' Medium, st)
      else
        let originalPath = trim filePath;
            decodedPath = decode_loop 5 originalPath [];
            (hit, st1) = test_any DANGEROUS_PATH_PATTERNS st decodedPath
        in if hit then (rejected ''Tentative de traversee detectee'' High, st1)
           else
             let normalizedPath = replace_all [backslash] ''/'' (path_normalize decodedPath);
                 ext = toLowerCase (path_extname normalizedPath);
                 filename = toLowerCase (path_basename normalizedPath)
             in if ext \<in> set DANGEROUS_EXTENSIONS
                then (rejected (''Extension dangereuse: '' @ ext) High, st1)
                else if list_ex (\<lambda>d. startsWith (toLowerCase normalizedPath) (toLowerCase d))
                          FORBIDDEN_DIRECTORIES
                then (rejected ''Acces interdit'' Critical, st1)
                else if list_ex (\<lambda>f. filename = f \<or> startsWith filename (f @ ''.''))
                          FORBIDDEN_FILENAMES
                then (rejected (''Fichier systeme interdit: '' @ filename) High, st1)
                else if length normalizedPath > 255
                then (rejected ''Chemin trop long'' Medium, st1)
                else if matches invalidChars normalizedPath
                then (rejected ''Caracteres interdits dans le chemin'' Medium, st1)
                else (\<lparr>isValid = True, sanitized = Some normalizedPath, rejection = None,
                       severity = Low\<rparr>, st1))"

text \<open>\<^verbatim>\<open>createSecurePath\<close>; \<open>cwd\<close> is the working directory of the process.  An empty
  sanitized path is falsy.\<close>

definition createSecurePath ::
  "string \<Rightarrow> nat list \<Rightarrow> string \<Rightarrow> string \<Rightarrow> string option \<times> nat list" where
  "createSecurePath cwd st basePath userPath =
     (let (validation, st1) = sanitizeFilePath st userPath
      in case sanitized validation of
           None \<Rightarrow> (None, st1)
         | Some s \<Rightarrow>
             if \<not> isValid validation \<or> s = [] then (None, st1)
             else
               let fullPath = path_resolve cwd [basePath, s];
                   normalizedBasePath = path_resolve cwd [basePath]
               in if \<not> startsWith fullPath normalizedBasePath then (None, st1)
                  else (Some fullPath, st1))"

text \<open>What the check of \<^verbatim>\<open>createSecurePath\<close> is there for: \<open>p\<close> lies inside the
  directory \<open>base\<close> (a resolved path, without a trailing slash unless it is the root),
  as a strict descendant.\<close>

definition strictly_inside :: "string \<Rightarrow> string \<Rightarrow> bool" where
  "strictly_inside base p =
     (if base = ''/'' then prefix ''/'' p \<and> length p > 1
      else prefix (base @ ''/'') p \<and> length p > length base + 1)"


section \<open>Properties\<close>

subsection \<open>Origin guard\<close>

text \<open>
  Claim C7, as amended.  A request without an Origin header (or with an empty one) is
  allowed if and only if the environment is \<^verbatim>\<open>development\<close>: it is refused in
  production and in every other environment, whatever the URL parser and the
  configured frontend URL are.
\<close>

theorem absent_origin_allowed_iff_development:
  "isOriginAllowed parse frontend_url None environment = (environment = ''development'')"
  by (simp add: isOriginAllowed_def)

theorem absent_origin_allowed_iff_development_witness:
  "isOriginAllowed (\<lambda>s. None) ''http://localhost:5173'' None ''development''
   \<and> \<not> isOriginAllowed (\<lambda>s. None) ''http://localhost:5173'' None ''production''"
  using absent_origin_allowed_iff_development [of "\<lambda>s. None" "''http://localhost:5173''" "''development''"]
    absent_origin_allowed_iff_development [of "\<lambda>s. None" "''http://localhost:5173''" "''production''"]
  by simp

text \<open>The environment \<^verbatim>\<open>test\<close> (one of the three values the configuration accepts) is
  not production, and a request without an origin is refused there.\<close>

theorem absent_origin_refused_in_test:
  "\<not> (\<forall>environment. isOriginAllowed (\<lambda>s. None) ''http://localhost:5173'' None environment
        = (environment \<noteq> ''production''))"
proof
  assume "\<forall>environment. isOriginAllowed (\<lambda>s. None) ''http://localhost:5173'' None environment
        = (environment \<noteq> ''production'')"
  then have "isOriginAllowed (\<lambda>s. None) ''http://localhost:5173'' None ''test''
        = (''test'' \<noteq> ''production'')"
    by blast
  then show False
    by (simp add: isOriginAllowed_def)
qed

subsection \<open>Global error handlers\<close>

text \<open>
  Claim C9, as amended.  An uncaught exception is classified internal with critical
  severity, logged at error level, and the process exit (code 1, one second later) is
  scheduled exactly when the environment is production.  An unhandled rejection is
  classified internal with high severity, logged at error level, and never schedules
  an exit.
\<close>

theorem global_handlers_behaviour:
  "logged (globalErrorHandler node_env (UncaughtException msg))
     = [(LogError, createSecureError INTERNAL msg
           (no_options\<lparr>opt_severity := Some CRITICAL, opt_source := Some ''uncaughtException''\<rparr>))]
   \<and> se_type (snd (hd (logged (globalErrorHandler node_env (UncaughtException msg))))) = INTERNAL
   \<and> se_severity (snd (hd (logged (globalErrorHandler node_env (UncaughtException msg))))) = CRITICAL
   \<and> exit_scheduled (globalErrorHandler node_env (UncaughtException msg))
       = (if node_env = ''production'' then Some (1000, 1) else None)
   \<and> fst (hd (logged (globalErrorHandler node_env (UnhandledRejection msg)))) = LogError
   \<and> se_type (snd (hd (logged (globalErrorHandler node_env (UnhandledRejection msg))))) = INTERNAL
   \<and> se_severity (snd (hd (logged (globalErrorHandler node_env (UnhandledRejection msg))))) = HIGH
   \<and> exit_scheduled (globalErrorHandler node_env (UnhandledRejection msg)) = None"
  by (simp add: createSecureError_def logSecureError_def no_options_def Let_def)

theorem global_handlers_behaviour_witness:
  "exit_scheduled (globalErrorHandler ''production'' (UncaughtException ''boom'')) = Some (1000, 1)
   \<and> exit_scheduled (globalErrorHandler ''development'' (UncaughtException ''boom'')) = None
   \<and> se_severity (snd (hd (logged (globalErrorHandler ''production'' (UnhandledRejection ''boom'')))))
       = HIGH"
  using global_handlers_behaviour [of "''production''" "''boom''"]
    global_handlers_behaviour [of "''development''" "''boom''"]
  by simp

text \<open>In production an unhandled rejection is neither critical nor followed by an
  exit.\<close>

theorem unhandled_rejection_not_critical_no_exit:
  "se_severity (snd (hd (logged (globalErrorHandler ''production'' (UnhandledRejection ''boom'')))))
     \<noteq> CRITICAL
   \<and> exit_scheduled (globalErrorHandler ''production'' (UnhandledRejection ''boom'')) = None"
  by (simp add: createSecureError_def logSecureError_def no_options_def Let_def)

subsection \<open>Rate limiter: one request\<close>

lemma block_key_not_rate_key: "generateBlockKey ip \<noteq> generateRateLimitKey ip' url uid"
  by (simp add: generateBlockKey_def generateRateLimitKey_def Let_def split: option.splits)

lemma live_upd_same: "live (st(k \<mapsto> (v, e))) now k = (if unexpired now e then Some (v, e) else None)"
  by (simp add: live_def)

lemma live_del_same: "live (st(k := None)) now k = None"
  by (simp add: live_def)

lemma live_SomeD: "live st now k = Some (v, e) \<Longrightarrow> st k = Some (v, e) \<and> unexpired now e"
  by (auto simp: live_def split: option.splits if_splits)

lemma middleware_blocked:
  assumes "live st (req_now r) (generateBlockKey (req_ip r)) \<noteq> None"
  shows "advancedRateLimitMiddleware env True st r = (IpTemporarilyBlocked 300, st)"
proof -
  from assms have "isIPBlocked True st (req_now r) (req_ip r)"
    by (cases "live st (req_now r) (generateBlockKey (req_ip r))")
       (simp_all add: isIPBlocked_def redis_exists_def)
  then show ?thesis
    by (simp add: advancedRateLimitMiddleware_def Let_def)
qed

lemma purge_filter_eq: "filter (\<lambda>(m, s). \<not> s \<le> now - w) z = filter (\<lambda>(m, s). now - w < (s::int)) z"
  by (rule filter_cong) auto

lemma zrem_purged:
  assumes "is_zset_or_free st now k"
  shows "redis_zremrangebyscore st now k (now - w) = Some (purged st now k w)"
proof (cases "live st now k")
  case None
  then show ?thesis by (simp add: redis_zremrangebyscore_def purged_def)
next
  case (Some p)
  obtain v e where p: "p = (v, e)" by (cases p)
  from assms Some p obtain z where v: "v = RZSet z"
    by (cases v) (simp_all add: is_zset_or_free_def)
  show ?thesis using Some p v
    by (simp add: redis_zremrangebyscore_def purged_def counted_entries_def purge_filter_eq Let_def)
qed

lemma zcard_purged:
  assumes "is_zset_or_free st now k"
  shows "redis_zcard (purged st now k w) now k = Some (length (counted_entries st now k w))"
proof (cases "live st now k")
  case None
  then show ?thesis by (simp add: redis_zcard_def purged_def counted_entries_def)
next
  case (Some p)
  obtain v e where p: "p = (v, e)" by (cases p)
  from assms Some p obtain z where v: "v = RZSet z"
    by (cases v) (simp_all add: is_zset_or_free_def)
  from Some p v have l: "live st now k = Some (RZSet z, e)" by simp
  from live_SomeD[OF l] have u: "unexpired now e" by simp
  show ?thesis using l u
    by (simp add: redis_zcard_def purged_def live_upd_same live_del_same)
qed


lemma zadd_expire_purged:
  assumes "is_zset_or_free st now k"
  shows "\<exists>st2. redis_zadd (purged st now k w) now k sc m = Some st2
            \<and> redis_expire st2 now k secs =
                st(k \<mapsto> (RZSet (filter (\<lambda>(m', s). m' \<noteq> m) (counted_entries st now k w) @ [(m, sc)]),
                          Some (now + 1000 * secs)))"
proof (cases "live st now k")
  case None
  then show ?thesis
    by (simp add: redis_zadd_def redis_expire_def purged_def counted_entries_def live_upd_same
        unexpired_def)
next
  case (Some p)
  obtain v e where p: "p = (v, e)" by (cases p)
  from assms Some p obtain z where v: "v = RZSet z"
    by (cases v) (simp_all add: is_zset_or_free_def)
  from Some p v have l: "live st now k = Some (RZSet z, e)" by simp
  from live_SomeD[OF l] have u: "unexpired now e" by simp
  show ?thesis
  proof (cases "counted_entries st now k w = []")
    case True
    then show ?thesis using l
      by (simp add: redis_zadd_def redis_expire_def purged_def live_upd_same live_del_same
          unexpired_def)
  next
    case False
    then show ?thesis using l u
      by (simp add: redis_zadd_def redis_expire_def purged_def live_upd_same)
  qed
qed

lemma middleware_denies:
  assumes nb: "live st (req_now r) (generateBlockKey (req_ip r)) = None"
    and ty: "is_zset_or_free st (req_now r) (generateRateLimitKey (req_ip r) (req_url r) (req_userId r))"
    and L: "L = RATE_LIMITS env (getRateLimitType (req_method r) (req_url r))"
    and d: "blockDuration L = Some d" "d \<noteq> 0"
    and full: "maxRequests L \<le> length (counted_entries st (req_now r)
                 (generateRateLimitKey (req_ip r) (req_url r) (req_userId r)) (windowMs L))"
  shows "advancedRateLimitMiddleware env True st r =
           (RateLimitExceeded (maxRequests L) (windowMs L div 1000) (ceil_seconds (windowMs L)),
            (purged st (req_now r) (generateRateLimitKey (req_ip r) (req_url r) (req_userId r)) (windowMs L))
              (generateBlockKey (req_ip r) \<mapsto>
                 (RString \<lparr>blockedAt = req_now r, reason = limit_type_name (getRateLimitType (req_method r) (req_url r)), duration = d\<rparr>,
                  Some (req_now r + 1000 * int d))))"
proof -
  have nblk: "\<not> isIPBlocked True st (req_now r) (req_ip r)"
    using nb by (simp add: isIPBlocked_def redis_exists_def)
  show ?thesis
    using nblk d full zrem_purged[OF ty] zcard_purged[OF ty]
    by (simp add: advancedRateLimitMiddleware_def Let_def L[symmetric] blockIP_def redis_setex_def)
qed

lemma middleware_admits:
  assumes nb: "live st (req_now r) (generateBlockKey (req_ip r)) = None"
    and ty: "is_zset_or_free st (req_now r) (generateRateLimitKey (req_ip r) (req_url r) (req_userId r))"
    and L: "L = RATE_LIMITS env (getRateLimitType (req_method r) (req_url r))"
    and room: "length (counted_entries st (req_now r)
                 (generateRateLimitKey (req_ip r) (req_url r) (req_userId r)) (windowMs L)) < maxRequests L"
  shows "advancedRateLimitMiddleware env True st r =
           (Admitted (maxRequests L)
              (int (maxRequests L) - int (length (counted_entries st (req_now r)
                 (generateRateLimitKey (req_ip r) (req_url r) (req_userId r)) (windowMs L))) - 1)
              (req_now r + windowMs L) (windowMs L div 1000),
            st(generateRateLimitKey (req_ip r) (req_url r) (req_userId r) \<mapsto>
                 (RZSet (filter (\<lambda>(m', s). m' \<noteq> (req_now r, req_random r))
                           (counted_entries st (req_now r)
                              (generateRateLimitKey (req_ip r) (req_url r) (req_userId r)) (windowMs L))
                         @ [((req_now r, req_random r), req_now r)]),
                  Some (req_now r + 1000 * ceil_seconds (windowMs L)))))"
proof -
  have nblk: "\<not> isIPBlocked True st (req_now r) (req_ip r)"
    using nb by (simp add: isIPBlocked_def redis_exists_def)
  from zadd_expire_purged[OF ty, of "windowMs L" "req_now r" "(req_now r, req_random r)" "ceil_seconds (windowMs L)"]
  obtain st2 where
    a: "redis_zadd (purged st (req_now r) (generateRateLimitKey (req_ip r) (req_url r) (req_userId r)) (windowMs L))
          (req_now r) (generateRateLimitKey (req_ip r) (req_url r) (req_userId r)) (req_now r) (req_now r, req_random r) = Some st2"
    and b: "redis_expire st2 (req_now r) (generateRateLimitKey (req_ip r) (req_url r) (req_userId r)) (ceil_seconds (windowMs L)) =
        st(generateRateLimitKey (req_ip r) (req_url r) (req_userId r) \<mapsto>
                 (RZSet (filter (\<lambda>(m', s). m' \<noteq> (req_now r, req_random r))
                           (counted_entries st (req_now r)
                              (generateRateLimitKey (req_ip r) (req_url r) (req_userId r)) (windowMs L))
                         @ [((req_now r, req_random r), req_now r)]),
                  Some (req_now r + 1000 * ceil_seconds (windowMs L))))"
    by blast
  show ?thesis
    using nblk room zrem_purged[OF ty] zcard_purged[OF ty] a b
    by (simp add: advancedRateLimitMiddleware_def Let_def L[symmetric])
qed


lemma counted_explicit:
  "unexpired now e \<Longrightarrow>
   counted_entries (st(k \<mapsto> (RZSet z, e))) now k w = filter (\<lambda>(m, s). now - w < s) z"
  by (simp add: counted_entries_def live_upd_same)

lemma counted_free: "st k = None \<Longrightarrow> counted_entries st now k w = []"
  by (simp add: counted_entries_def live_def)

lemma zset_or_free_explicit: "is_zset_or_free (st(k \<mapsto> (RZSet z, e))) now k"
  by (simp add: is_zset_or_free_def live_upd_same)

lemma zset_or_free_free: "st k = None \<Longrightarrow> is_zset_or_free st now k"
  by (simp add: is_zset_or_free_def live_def)

lemma live_free: "st k = None \<Longrightarrow> live st now k = None"
  by (simp add: live_def)

lemma auth_admit_step:
  assumes auth: "str_includes url ''/auth/''"
    and nb: "live s t (generateBlockKey ip) = None"
    and ty: "is_zset_or_free s t (generateRateLimitKey ip url None)"
    and c: "counted_entries s t (generateRateLimitKey ip url None) 900000 = z"
    and room: "length z < 5"
    and new: "\<forall>(m', sc) \<in> set z. m' \<noteq> (t, n)"
  shows "advancedRateLimitMiddleware env True s (login_attempt ip url t n) =
           (Admitted 5 (4 - int (length z)) (t + 900000) 900,
            s(generateRateLimitKey ip url None \<mapsto> (RZSet (z @ [((t, n), t)]), Some (t + 900000))))"
proof -
  have f: "filter (\<lambda>(m', sc). m' \<noteq> (t, n)) z = z"
    using new by (auto simp: filter_id_conv)
  show ?thesis
    using middleware_admits[of s "login_attempt ip url t n" "RATE_LIMITS env Auth" env] nb ty c room auth f
    by (simp add: login_attempt_def getRateLimitType_def ceil_seconds_def)
qed


lemma auth_deny_step:
  assumes auth: "str_includes url ''/auth/''"
    and nb: "live s t (generateBlockKey ip) = None"
    and ty: "is_zset_or_free s t (generateRateLimitKey ip url None)"
    and full: "5 \<le> length (counted_entries s t (generateRateLimitKey ip url None) 900000)"
  shows "advancedRateLimitMiddleware env True s (login_attempt ip url t n) =
           (RateLimitExceeded 5 900 900,
            (purged s t (generateRateLimitKey ip url None) 900000)
              (generateBlockKey ip \<mapsto>
                 (RString \<lparr>blockedAt = t, reason = ''auth'', duration = 1800\<rparr>, Some (t + 1800000))))"
  using middleware_denies[of s "login_attempt ip url t n" "RATE_LIMITS env Auth" env 1800] nb ty full auth
  by (simp add: login_attempt_def getRateLimitType_def ceil_seconds_def)






lemmas rate_limit_eval =
  advancedRateLimitMiddleware_def isIPBlocked_def redis_exists_def live_def unexpired_def
  redis_zremrangebyscore_def redis_zcard_def redis_zadd_def redis_expire_def blockIP_def
  redis_setex_def getRateLimitType_def generateRateLimitKey_def generateBlockKey_def
  ceil_seconds_def login_attempt_def toUpperCase_def upper_char_def Let_def

subsection \<open>Rate limiter: the login scenario\<close>

text \<open>
  Claim C1, as amended.  A client without a block and without a window sends six login
  attempts to one authentication endpoint within 15 minutes.  The first five are
  admitted.  The sixth receives the rate-limit denial with limit 5 and a retry-after of
  900 seconds (the window length in seconds, not the block duration), and it blocks the
  client's address for 1800 seconds: every request from that address during the next
  30 minutes, whatever its endpoint and method, is answered with the
  blocked-address denial (retry-after 300) and leaves the store as it is.
\<close>

theorem auth_sixth_attempt_denied_and_blocked:
  assumes auth: "str_includes url ''/auth/''"
    and fresh: "st (generateBlockKey ip) = None" "st (generateRateLimitKey ip url None) = None"
    and order: "t1 \<le> t2" "t2 \<le> t3" "t3 \<le> t4" "t4 \<le> t5" "t5 \<le> t6"
    and within: "t6 < t1 + 15 * 60 * 1000"
    and dist: "distinct [(t1, n1), (t2, n2), (t3, n3), (t4, n4), (t5, n5)]"
  shows "\<exists>st'. handle_all env True st
             [login_attempt ip url t1 n1, login_attempt ip url t2 n2, login_attempt ip url t3 n3,
              login_attempt ip url t4 n4, login_attempt ip url t5 n5, login_attempt ip url t6 n6]
           = ([Admitted 5 4 (t1 + 900000) 900, Admitted 5 3 (t2 + 900000) 900,
               Admitted 5 2 (t3 + 900000) 900, Admitted 5 1 (t4 + 900000) 900,
               Admitted 5 0 (t5 + 900000) 900, RateLimitExceeded 5 900 900], st')
         \<and> (\<forall>r. req_ip r = ip \<and> t6 \<le> req_now r \<and> req_now r < t6 + 30 * 60 * 1000
                \<longrightarrow> advancedRateLimitMiddleware env True st' r = (IpTemporarilyBlocked 300, st'))"
proof -
  let ?k = "generateRateLimitKey ip url None"
  let ?b = "generateBlockKey ip"
  let ?e1 = "((t1, n1), t1)" and ?e2 = "((t2, n2), t2)" and ?e3 = "((t3, n3), t3)"
    and ?e4 = "((t4, n4), t4)" and ?e5 = "((t5, n5), t5)"
  let ?s1 = "st(?k \<mapsto> (RZSet [?e1], Some (t1 + 900000)))"
  let ?s2 = "st(?k \<mapsto> (RZSet [?e1, ?e2], Some (t2 + 900000)))"
  let ?s3 = "st(?k \<mapsto> (RZSet [?e1, ?e2, ?e3], Some (t3 + 900000)))"
  let ?s4 = "st(?k \<mapsto> (RZSet [?e1, ?e2, ?e3, ?e4], Some (t4 + 900000)))"
  let ?s5 = "st(?k \<mapsto> (RZSet [?e1, ?e2, ?e3, ?e4, ?e5], Some (t5 + 900000)))"
  let ?s6 = "(purged ?s5 t6 ?k 900000)
               (?b \<mapsto> (RString \<lparr>blockedAt = t6, reason = ''auth'', duration = 1800\<rparr>,
                        Some (t6 + 1800000)))"
  have kb: "?b \<noteq> ?k" by (rule block_key_not_rate_key)
  have nb: "\<And>z e t. live (st(?k \<mapsto> (RZSet z, e))) t ?b = None"
    using fresh(1) kb by (simp add: live_def)
  have a1: "advancedRateLimitMiddleware env True st (login_attempt ip url t1 n1)
              = (Admitted 5 4 (t1 + 900000) 900, ?s1)"
    using auth_admit_step[OF auth, of st t1 ip "[]" n1 env] fresh
    by (simp add: live_free zset_or_free_free counted_free)
  have a2: "advancedRateLimitMiddleware env True ?s1 (login_attempt ip url t2 n2)
              = (Admitted 5 3 (t2 + 900000) 900, ?s2)"
    using auth_admit_step[OF auth, of ?s1 t2 ip "[?e1]" n2 env] nb order within dist
    by (simp add: zset_or_free_explicit counted_explicit unexpired_def)
  have a3: "advancedRateLimitMiddleware env True ?s2 (login_attempt ip url t3 n3)
              = (Admitted 5 2 (t3 + 900000) 900, ?s3)"
    using auth_admit_step[OF auth, of ?s2 t3 ip "[?e1, ?e2]" n3 env] nb order within dist
    by (simp add: zset_or_free_explicit counted_explicit unexpired_def)
  have a4: "advancedRateLimitMiddleware env True ?s3 (login_attempt ip url t4 n4)
              = (Admitted 5 1 (t4 + 900000) 900, ?s4)"
    using auth_admit_step[OF auth, of ?s3 t4 ip "[?e1, ?e2, ?e3]" n4 env] nb order within dist
    by (simp add: zset_or_free_explicit counted_explicit unexpired_def)
  have a5: "advancedRateLimitMiddleware env True ?s4 (login_attempt ip url t5 n5)
              = (Admitted 5 0 (t5 + 900000) 900, ?s5)"
    using auth_admit_step[OF auth, of ?s4 t5 ip "[?e1, ?e2, ?e3, ?e4]" n5 env] nb order within dist
    by (simp add: zset_or_free_explicit counted_explicit unexpired_def)
  have a6: "advancedRateLimitMiddleware env True ?s5 (login_attempt ip url t6 n6)
              = (RateLimitExceeded 5 900 900, ?s6)"
    using auth_deny_step[OF auth, of ?s5 t6 ip env n6] nb order within
    by (simp add: zset_or_free_explicit counted_explicit unexpired_def)
  have run: "handle_all env True st
             [login_attempt ip url t1 n1, login_attempt ip url t2 n2, login_attempt ip url t3 n3,
              login_attempt ip url t4 n4, login_attempt ip url t5 n5, login_attempt ip url t6 n6]
           = ([Admitted 5 4 (t1 + 900000) 900, Admitted 5 3 (t2 + 900000) 900,
               Admitted 5 2 (t3 + 900000) 900, Admitted 5 1 (t4 + 900000) 900,
               Admitted 5 0 (t5 + 900000) 900, RateLimitExceeded 5 900 900], ?s6)"
    by (simp add: a1 a2 a3 a4 a5 a6)
  have blocked: "advancedRateLimitMiddleware env True ?s6 r = (IpTemporarilyBlocked 300, ?s6)"
    if "req_ip r = ip \<and> t6 \<le> req_now r \<and> req_now r < t6 + 30 * 60 * 1000" for r
  proof (rule middleware_blocked)
    show "live ?s6 (req_now r) (generateBlockKey (req_ip r)) \<noteq> None"
      using that by (simp add: live_upd_same unexpired_def)
  qed
  from run blocked show ?thesis by blast
qed



theorem auth_sixth_attempt_witness:
  "str_includes ''/auth/login'' ''/auth/''
   \<and> (\<exists>st'. handle_all ''production'' True Map.empty
        [login_attempt ''1.2.3.4'' ''/auth/login'' 1000 1,
         login_attempt ''1.2.3.4'' ''/auth/login'' 2000 2,
         login_attempt ''1.2.3.4'' ''/auth/login'' 3000 3,
         login_attempt ''1.2.3.4'' ''/auth/login'' 4000 4,
         login_attempt ''1.2.3.4'' ''/auth/login'' 5000 5,
         login_attempt ''1.2.3.4'' ''/auth/login'' 6000 6]
       = ([Admitted 5 4 901000 900, Admitted 5 3 902000 900, Admitted 5 2 903000 900,
           Admitted 5 1 904000 900, Admitted 5 0 905000 900, RateLimitExceeded 5 900 900], st')
      \<and> advancedRateLimitMiddleware ''production'' True st'
           (login_attempt ''1.2.3.4'' ''/auth/login'' 7000 7) = (IpTemporarilyBlocked 300, st'))"
proof -
  have inc: "str_includes ''/auth/login'' ''/auth/''"
    by simp
  have "\<exists>st'. handle_all ''production'' True Map.empty
             [login_attempt ''1.2.3.4'' ''/auth/login'' 1000 1,
              login_attempt ''1.2.3.4'' ''/auth/login'' 2000 2,
              login_attempt ''1.2.3.4'' ''/auth/login'' 3000 3,
              login_attempt ''1.2.3.4'' ''/auth/login'' 4000 4,
              login_attempt ''1.2.3.4'' ''/auth/login'' 5000 5,
              login_attempt ''1.2.3.4'' ''/auth/login'' 6000 6]
           = ([Admitted 5 4 (1000 + 900000) 900, Admitted 5 3 (2000 + 900000) 900,
               Admitted 5 2 (3000 + 900000) 900, Admitted 5 1 (4000 + 900000) 900,
               Admitted 5 0 (5000 + 900000) 900, RateLimitExceeded 5 900 900], st')
         \<and> (\<forall>r. req_ip r = ''1.2.3.4'' \<and> 6000 \<le> req_now r \<and> req_now r < 6000 + 30 * 60 * 1000
                \<longrightarrow> advancedRateLimitMiddleware ''production'' True st' r
                      = (IpTemporarilyBlocked 300, st'))"
    by (rule auth_sixth_attempt_denied_and_blocked) simp_all
  then obtain st' where
    run: "handle_all ''production'' True Map.empty
             [login_attempt ''1.2.3.4'' ''/auth/login'' 1000 1,
              login_attempt ''1.2.3.4'' ''/auth/login'' 2000 2,
              login_attempt ''1.2.3.4'' ''/auth/login'' 3000 3,
              login_attempt ''1.2.3.4'' ''/auth/login'' 4000 4,
              login_attempt ''1.2.3.4'' ''/auth/login'' 5000 5,
              login_attempt ''1.2.3.4'' ''/auth/login'' 6000 6]
           = ([Admitted 5 4 (1000 + 900000) 900, Admitted 5 3 (2000 + 900000) 900,
               Admitted 5 2 (3000 + 900000) 900, Admitted 5 1 (4000 + 900000) 900,
               Admitted 5 0 (5000 + 900000) 900, RateLimitExceeded 5 900 900], st')"
    and blk: "\<forall>r. req_ip r = ''1.2.3.4'' \<and> 6000 \<le> req_now r \<and> req_now r < 6000 + 30 * 60 * 1000
                \<longrightarrow> advancedRateLimitMiddleware ''production'' True st' r
                      = (IpTemporarilyBlocked 300, st')"
    by blast
  have "advancedRateLimitMiddleware ''production'' True st'
           (login_attempt ''1.2.3.4'' ''/auth/login'' 7000 7) = (IpTemporarilyBlocked 300, st')"
    using blk by (simp add: login_attempt_def)
  with run inc show ?thesis
    by auto
qed

text \<open>The retry-after of the sixth attempt is 900 seconds, half of the block duration of
  1800 seconds.\<close>

theorem auth_sixth_attempt_retry_after_is_900:
  "retryAfter (last (fst (handle_all ''production'' True Map.empty
        [login_attempt ''1.2.3.4'' ''/auth/login'' 1000 1,
         login_attempt ''1.2.3.4'' ''/auth/login'' 2000 2,
         login_attempt ''1.2.3.4'' ''/auth/login'' 3000 3,
         login_attempt ''1.2.3.4'' ''/auth/login'' 4000 4,
         login_attempt ''1.2.3.4'' ''/auth/login'' 5000 5,
         login_attempt ''1.2.3.4'' ''/auth/login'' 6000 6]))) = 900
   \<and> blockDuration (RATE_LIMITS ''production'' Auth) = Some 1800"
  by (simp add: rate_limit_eval)

subsection \<open>Rate limiter: the sliding window\<close>





subsection \<open>Secret store\<close>

lemma revoked_stays_revoked_step:
  assumes "secrets m n = Some es" "\<not> isActive (metadata es)" "\<not> event_stores ev n"
  shows "\<exists>es'. secrets (apply_event C m ev) n = Some es' \<and> \<not> isActive (metadata es')"
proof (cases ev)
  case (StoreSecret now iv name val t)
  with assms show ?thesis
    by (auto simp: storeSecret_def scheduleRotation_def split: option.splits)
next
  case (GetSecret name)
  with assms show ?thesis by simp
next
  case (RotateSecret now iv newValue name)
  with assms show ?thesis
    by (auto simp: rotateSecret_def scheduleRotation_def split: option.splits)
next
  case (RevokeSecret name)
  with assms show ?thesis
    by (auto simp: revokeSecret_def split: option.splits)
next
  case (TimerFires now iv newValue name)
  with assms show ?thesis
    by (auto simp: rotateSecret_def scheduleRotation_def split: option.splits)
qed

lemma revoked_stays_revoked:
  assumes "secrets m n = Some es" "\<not> isActive (metadata es)" "\<forall>ev \<in> set evs. \<not> event_stores ev n"
  shows "\<exists>es'. secrets (apply_events C m evs) n = Some es' \<and> \<not> isActive (metadata es')"
  using assms
proof (induction evs arbitrary: m es)
  case Nil
  then show ?case by (simp add: apply_events_def)
next
  case (Cons ev evs)
  from Cons.prems obtain es1 where
    s: "secrets (apply_event C m ev) n = Some es1" "\<not> isActive (metadata es1)"
    using revoked_stays_revoked_step[of m n es ev C] by auto
  from Cons.IH[OF s] Cons.prems(3) show ?case
    by (simp add: apply_events_def)
qed

text \<open>
  The rotation interval of thirty days is larger than \<^verbatim>\<open>TIMEOUT_MAX\<close>, so the timer that
  \<^verbatim>\<open>scheduleRotation\<close> sets is due one millisecond later, and when it fires the secret is
  rotated again and the next timer is set in the same way.
\<close>

lemma rotation_timer_delay: "timer_delay rotationInterval = 1"
  by (simp add: timer_delay_def rotationInterval_def TIMEOUT_MAX_def)

lemma rotation_timer_due_next_millisecond:
  "rotationTimers (scheduleRotation now n m) n = Some (now + 1)"
  by (simp add: scheduleRotation_def rotation_timer_delay)

lemma rotation_timer_rotates_again:
  assumes "rotateSecret C now iv g m n = (True, m')"
      and "cipher_encrypt C g' \<noteq> None"
  shows "\<exists>m''. apply_event C m' (TimerFires (now + 1) iv' g' n) = m''
           \<and> (\<exists>es' es''. secrets m' n = Some es' \<and> secrets m'' n = Some es''
                  \<and> version (metadata es'') = version (metadata es') + 1)
           \<and> rotationTimers m'' n = Some (now + 2)"
  using assms
  by (auto simp: rotateSecret_def encryptSecret_def scheduleRotation_def rotation_timer_delay
      split: option.splits)

text \<open>
  Claim C6, as amended.  For a stored active secret \<open>n\<close>: when \<^verbatim>\<open>rotateSecret\<close> succeeds
  with the generated value \<open>g\<close> (which the cipher decrypts back), \<^verbatim>\<open>getSecret\<close> returns
  \<open>g\<close> afterwards, which differs from what it returned before whenever the generator has
  not drawn the old value again, and the version and the rotation count have each grown
  by exactly 1.  After \<^verbatim>\<open>revokeSecret\<close>, \<^verbatim>\<open>getSecret\<close> returns null, and it still does after
  any later reads, rotations, revocations and timer events; only storing a secret under
  the name \<open>n\<close> again ends this.
\<close>

theorem rotate_then_get_and_revoke_then_get:
  assumes stored: "secrets m n = Some es" and active: "isActive (metadata es)"
    and rotated: "rotateSecret C now iv g m n = (True, m')"
    and roundtrip: "\<forall>c t. cipher_encrypt C g = Some (c, t) \<longrightarrow> cipher_decrypt C c iv t = Some g"
    and later: "\<forall>ev \<in> set evs. \<not> event_stores ev n"
  shows "getSecret C m' n = Some g
       \<and> (getSecret C m n \<noteq> Some g \<longrightarrow> getSecret C m' n \<noteq> getSecret C m n)
       \<and> (\<exists>es'. secrets m' n = Some es'
             \<and> version (metadata es') = version (metadata es) + 1
             \<and> rotationCount (metadata es') = rotationCount (metadata es) + 1
             \<and> isActive (metadata es'))
       \<and> fst (revokeSecret m n) = True
       \<and> getSecret C (snd (revokeSecret m n)) n = None
       \<and> getSecret C (apply_events C (snd (revokeSecret m n)) evs) n = None"
proof -
  from rotated stored obtain c t where
    enc: "cipher_encrypt C g = Some (c, t)"
    and m': "m' = scheduleRotation now n
                  (m\<lparr>secrets := (secrets m)(n \<mapsto>
                       \<lparr>encryptedValue = c, secret_iv = iv, secret_tag = t,
                        metadata = (metadata es)
                          \<lparr>lastRotatedAt := now,
                           rotationCount := rotationCount (metadata es) + 1,
                           version := version (metadata es) + 1\<rparr>\<rparr>)\<rparr>)"
    by (auto simp: rotateSecret_def encryptSecret_def split: option.splits)
  from roundtrip enc have dec: "cipher_decrypt C c iv t = Some g" by blast
  have g: "getSecret C m' n = Some g"
    using active dec by (simp add: m' getSecret_def scheduleRotation_def decryptSecret_def)
  have meta: "\<exists>es'. secrets m' n = Some es'
             \<and> version (metadata es') = version (metadata es) + 1
             \<and> rotationCount (metadata es') = rotationCount (metadata es) + 1
             \<and> isActive (metadata es')"
    using active by (simp add: m' scheduleRotation_def)
  let ?r = "snd (revokeSecret m n)"
  have r: "secrets ?r n = Some (es\<lparr>metadata := (metadata es)\<lparr>isActive := False\<rparr>\<rparr>)"
    using stored by (simp add: revokeSecret_def)
  have r1: "fst (revokeSecret m n) = True"
    using stored by (simp add: revokeSecret_def)
  have r2: "getSecret C ?r n = None"
    using r by (simp add: getSecret_def)
  obtain es2 where "secrets (apply_events C ?r evs) n = Some es2" "\<not> isActive (metadata es2)"
    using revoked_stays_revoked[OF r _ later, of C] by auto
  then have r3: "getSecret C (apply_events C ?r evs) n = None"
    by (simp add: getSecret_def)
  from g meta r1 r2 r3 show ?thesis by simp
qed

theorem rotate_then_get_and_revoke_then_get_witness:
  "(\<exists>m m'. storeSecret example_cipher 0 ''iv0'' ''jwt_primary'' ''old-secret'' Jwt empty_manager = Some m
      \<and> rotateSecret example_cipher 5 ''iv1'' ''new-secret'' m ''jwt_primary'' = (True, m')
      \<and> getSecret example_cipher m ''jwt_primary'' = Some ''old-secret''
      \<and> getSecret example_cipher m' ''jwt_primary'' = Some ''new-secret''
      \<and> getSecret example_cipher
           (apply_events example_cipher (snd (revokeSecret m ''jwt_primary''))
              [RotateSecret 7 ''iv2'' ''third'' ''jwt_primary'',
               TimerFires 8 ''iv3'' ''fourth'' ''jwt_primary'', GetSecret ''jwt_primary''])
           ''jwt_primary'' = None)"
proof -
  let ?C = example_cipher
  obtain m where m: "storeSecret ?C 0 ''iv0'' ''jwt_primary'' ''old-secret'' Jwt empty_manager = Some m"
    by (simp add: storeSecret_def encryptSecret_def example_cipher_def)
  obtain m' where m': "rotateSecret ?C 5 ''iv1'' ''new-secret'' m ''jwt_primary'' = (True, m')"
    using m
    by (auto simp: storeSecret_def rotateSecret_def encryptSecret_def example_cipher_def
        scheduleRotation_def empty_manager_def)
  obtain es where es: "secrets m ''jwt_primary'' = Some es" "isActive (metadata es)"
    using m
    by (auto simp: storeSecret_def encryptSecret_def example_cipher_def scheduleRotation_def
        empty_manager_def)
  have old: "getSecret ?C m ''jwt_primary'' = Some ''old-secret''"
    using m
    by (auto simp: storeSecret_def encryptSecret_def example_cipher_def scheduleRotation_def
        empty_manager_def getSecret_def decryptSecret_def)
  have rt: "\<forall>c t. cipher_encrypt ?C ''new-secret'' = Some (c, t)
              \<longrightarrow> cipher_decrypt ?C c ''iv1'' t = Some ''new-secret''"
    by (simp add: example_cipher_def)
  have ev: "\<forall>ev \<in> set [RotateSecret 7 ''iv2'' ''third'' ''jwt_primary'',
               TimerFires 8 ''iv3'' ''fourth'' ''jwt_primary'', GetSecret ''jwt_primary''].
              \<not> event_stores ev ''jwt_primary''"
    by simp
  from rotate_then_get_and_revoke_then_get [OF es m' rt ev] m m' old show ?thesis
    by blast
qed

text \<open>
  A rotation whose generator draws the stored value again (for the type
  \<^verbatim>\<open>encryption\<close> the value is the hex text of 64 random bytes, here all zero) leaves
  \<^verbatim>\<open>getSecret\<close> with the same value; and after a revocation, storing a secret under the
  same name makes \<^verbatim>\<open>getSecret\<close> return a value again.
\<close>

theorem same_value_after_rotation_and_value_after_store_again:
  "getSecret example_cipher
     (apply_events example_cipher empty_manager
        [StoreSecret 0 ''iv0'' ''data_key'' (replicate 128 CHR ''0'') Encryption])
     ''data_key'' = Some (replicate 128 CHR ''0'')
   \<and> rotateSecret example_cipher 5 ''iv1'' (replicate 128 CHR ''0'')
       (apply_events example_cipher empty_manager
          [StoreSecret 0 ''iv0'' ''data_key'' (replicate 128 CHR ''0'') Encryption])
       ''data_key''
     = (True,
        apply_events example_cipher empty_manager
          [StoreSecret 0 ''iv0'' ''data_key'' (replicate 128 CHR ''0'') Encryption,
           RotateSecret 5 ''iv1'' (replicate 128 CHR ''0'') ''data_key''])
   \<and> getSecret example_cipher
       (apply_events example_cipher empty_manager
          [StoreSecret 0 ''iv0'' ''data_key'' (replicate 128 CHR ''0'') Encryption,
           RotateSecret 5 ''iv1'' (replicate 128 CHR ''0'') ''data_key''])
       ''data_key'' = Some (replicate 128 CHR ''0'')
   \<and> getSecret example_cipher
       (apply_events example_cipher empty_manager
          [StoreSecret 0 ''iv0'' ''jwt_primary'' ''old-secret'' Jwt,
           RevokeSecret ''jwt_primary''])
       ''jwt_primary'' = None
   \<and> getSecret example_cipher
       (apply_events example_cipher empty_manager
          [StoreSecret 0 ''iv0'' ''jwt_primary'' ''old-secret'' Jwt,
           RevokeSecret ''jwt_primary'',
           GetSecret ''jwt_primary'',
           StoreSecret 9 ''iv1'' ''jwt_primary'' ''next-secret'' Jwt])
       ''jwt_primary'' = Some ''next-secret''"
  by (simp add: apply_events_def storeSecret_def rotateSecret_def revokeSecret_def getSecret_def
      encryptSecret_def decryptSecret_def scheduleRotation_def example_cipher_def
      empty_manager_def)

subsection \<open>UTF-8\<close>

lemma unit16_bound: "unat (u :: unit16) < 65536"
  using unsigned_less[of u, where ?'a = nat] by simp

lemma utf8_of_point_bytes:
  assumes "cp < 0x110000" "b \<in> set (utf8_of_point cp)"
  shows "b < 256"
  using assms by (auto simp: utf8_of_point_def split: if_splits)

lemma utf8_points_one:
  "b < 0x80 \<Longrightarrow> utf8_points (b # bs) = b # utf8_points bs"
  by simp

lemma utf8_points_two:
  "\<lbrakk>0xC2 \<le> b; b \<le> 0xDF; is_continuation c\<rbrakk>
   \<Longrightarrow> utf8_points (b # c # r) = ((b - 0xC0) * 64 + (c - 0x80)) # utf8_points r"
  by simp

lemma utf8_points_three:
  "\<lbrakk>0xE0 \<le> b; b \<le> 0xEF; second_lower b \<le> c; c \<le> second_upper b; is_continuation d\<rbrakk>
   \<Longrightarrow> utf8_points (b # c # d # r)
       = ((b - 0xE0) * 4096 + (c - 0x80) * 64 + (d - 0x80)) # utf8_points r"
  by simp

lemma utf8_points_four:
  "\<lbrakk>0xF0 \<le> b; b \<le> 0xF4; second_lower b \<le> c; c \<le> second_upper b; is_continuation d;
    is_continuation e\<rbrakk>
   \<Longrightarrow> utf8_points (b # c # d # e # r)
       = ((b - 0xF0) * 262144 + (c - 0x80) * 4096 + (d - 0x80) * 64 + (e - 0x80))
         # utf8_points r"
  by simp

lemma split64:
  obtains q r :: nat where "n = q * 64 + r" "r < 64" "n div 64 = q" "n mod 64 = r"
  by (metis mod_less_divisor mult.commute mult_div_mod_eq zero_less_numeral)

lemma div4096: "(n::nat) div 4096 = n div 64 div 64"
  by (simp add: div_mult2_eq[symmetric])

lemma div262144: "(n::nat) div 262144 = n div 64 div 64 div 64"
  by (simp add: div_mult2_eq[symmetric])

lemma utf8_two_bytes:
  assumes "0x80 \<le> cp" "cp < 0x800"
  shows "utf8_points (utf8_of_point cp @ bs) = cp # utf8_points bs"
proof -
  obtain q r where qr: "cp = q * 64 + r" "r < 64" "cp div 64 = q" "cp mod 64 = r"
    by (rule split64)
  have e: "utf8_of_point cp = [0xC0 + q, 0x80 + r]"
    using assms qr(3,4) by (simp add: utf8_of_point_def)
  have "0xC2 \<le> 0xC0 + q" "0xC0 + q \<le> 0xDF" using assms qr(1,2) by linarith+
  moreover have "is_continuation (0x80 + r)" using qr(2) by (simp add: is_continuation_def)
  moreover have "(0xC0 + q - 0xC0) * 64 + (0x80 + r - 0x80) = cp" using qr(1) by simp
  ultimately have "utf8_points ((0xC0 + q) # (0x80 + r) # bs) = cp # utf8_points bs"
    by (simp only: utf8_points_two)
  then show ?thesis by (simp only: e append.simps)
qed

lemma utf8_three_bytes:
  assumes "0x800 \<le> cp" "cp < 0x10000" "\<not> (0xD800 \<le> cp \<and> cp \<le> 0xDFFF)"
  shows "utf8_points (utf8_of_point cp @ bs) = cp # utf8_points bs"
proof -
  obtain q1 r1 where a: "cp = q1 * 64 + r1" "r1 < 64" "cp div 64 = q1" "cp mod 64 = r1"
    by (rule split64)
  obtain q2 r2 where b: "q1 = q2 * 64 + r2" "r2 < 64" "q1 div 64 = q2" "q1 mod 64 = r2"
    by (rule split64)
  have e: "utf8_of_point cp = [0xE0 + q2, 0x80 + r2, 0x80 + r1]"
    using assms(1,2) a(3,4) b(3,4) by (simp add: utf8_of_point_def div4096)
  have q2: "q2 \<le> 15" using assms(2) a(1,2) b(1,2) by linarith
  have "0xE0 \<le> 0xE0 + q2" "0xE0 + q2 \<le> 0xEF" using q2 by linarith+
  moreover have "second_lower (0xE0 + q2) \<le> 0x80 + r2"
  proof (cases "q2 = 0")
    case True
    with assms(1) a(1,2) b(1) have "32 \<le> r2" by linarith
    with True show ?thesis by (simp add: second_lower_def)
  next
    case False
    with q2 show ?thesis by (simp add: second_lower_def)
  qed
  moreover have "0x80 + r2 \<le> second_upper (0xE0 + q2)"
  proof (cases "q2 = 13")
    case True
    with assms(3) a(1,2) b(1,2) have "r2 < 32" by linarith
    with True show ?thesis by (simp add: second_upper_def)
  next
    case False
    with b(2) q2 show ?thesis by (simp add: second_upper_def)
  qed
  moreover have "is_continuation (0x80 + r1)" using a(2) by (simp add: is_continuation_def)
  moreover have "(0xE0 + q2 - 0xE0) * 4096 + (0x80 + r2 - 0x80) * 64 + (0x80 + r1 - 0x80) = cp"
    using a(1) b(1) by simp
  ultimately have "utf8_points ((0xE0 + q2) # (0x80 + r2) # (0x80 + r1) # bs) = cp # utf8_points bs"
    by (simp only: utf8_points_three)
  then show ?thesis by (simp only: e append.simps)
qed

lemma utf8_four_bytes:
  assumes "0x10000 \<le> cp" "cp < 0x110000"
  shows "utf8_points (utf8_of_point cp @ bs) = cp # utf8_points bs"
proof -
  obtain q1 r1 where a: "cp = q1 * 64 + r1" "r1 < 64" "cp div 64 = q1" "cp mod 64 = r1"
    by (rule split64)
  obtain q2 r2 where b: "q1 = q2 * 64 + r2" "r2 < 64" "q1 div 64 = q2" "q1 mod 64 = r2"
    by (rule split64)
  obtain q3 r3 where c: "q2 = q3 * 64 + r3" "r3 < 64" "q2 div 64 = q3" "q2 mod 64 = r3"
    by (rule split64)
  have e: "utf8_of_point cp = [0xF0 + q3, 0x80 + r3, 0x80 + r2, 0x80 + r1]"
    using assms(1) a(3,4) b(3,4) c(3,4) by (simp add: utf8_of_point_def div4096 div262144)
  have q3: "q3 \<le> 4" using assms(2) a(1,2) b(1,2) c(1,2) by linarith
  have "0xF0 \<le> 0xF0 + q3" "0xF0 + q3 \<le> 0xF4" using q3 by linarith+
  moreover have "second_lower (0xF0 + q3) \<le> 0x80 + r3"
  proof (cases "q3 = 0")
    case True
    with assms(1) a(1,2) b(1,2) c(1) have "16 \<le> r3" by linarith
    with True show ?thesis by (simp add: second_lower_def)
  next
    case False
    then show ?thesis by (simp add: second_lower_def)
  qed
  moreover have "0x80 + r3 \<le> second_upper (0xF0 + q3)"
  proof (cases "q3 = 4")
    case True
    with assms(2) a(1,2) b(1,2) c(1,2) have "r3 < 16" by linarith
    with True show ?thesis by (simp add: second_upper_def)
  next
    case False
    with c(2) q3 show ?thesis by (simp add: second_upper_def)
  qed
  moreover have "is_continuation (0x80 + r2)" using b(2) by (simp add: is_continuation_def)
  moreover have "is_continuation (0x80 + r1)" using a(2) by (simp add: is_continuation_def)
  moreover have "(0xF0 + q3 - 0xF0) * 262144 + (0x80 + r3 - 0x80) * 4096 + (0x80 + r2 - 0x80) * 64
                   + (0x80 + r1 - 0x80) = cp"
    using a(1) b(1) c(1) by simp
  ultimately have "utf8_points ((0xF0 + q3) # (0x80 + r3) # (0x80 + r2) # (0x80 + r1) # bs)
                     = cp # utf8_points bs"
    by (simp only: utf8_points_four)
  then show ?thesis by (simp only: e append.simps)
qed

text \<open>The decoder reads the bytes of a scalar value back as that value.\<close>

lemma utf8_points_of_point:
  assumes "is_scalar_value cp"
  shows "utf8_points (utf8_of_point cp @ bs) = cp # utf8_points bs"
proof -
  from assms have s: "cp < 0x110000" "\<not> (0xD800 \<le> cp \<and> cp \<le> 0xDFFF)"
    by (simp_all add: is_scalar_value_def)
  consider "cp < 0x80" | "0x80 \<le> cp" "cp < 0x800" | "0x800 \<le> cp" "cp < 0x10000"
    | "0x10000 \<le> cp" by linarith
  then show ?thesis
  proof cases
    case 1
    then show ?thesis by (simp only: utf8_of_point_def if_True append.simps utf8_points_one)
  next
    case 2
    then show ?thesis by (rule utf8_two_bytes)
  next
    case 3
    then show ?thesis using s(2) by (rule utf8_three_bytes)
  next
    case 4
    then show ?thesis using s(1) by (rule utf8_four_bytes)
  qed
qed

lemma utf8_points_of_points:
  assumes "\<forall>cp \<in> set cps. is_scalar_value cp"
  shows "utf8_points (concat (map utf8_of_point cps)) = cps"
  using assms
proof (induction cps)
  case Nil
  then show ?case by simp
next
  case (Cons cp cps)
  then have "utf8_points (utf8_of_point cp @ concat (map utf8_of_point cps))
               = cp # utf8_points (concat (map utf8_of_point cps))"
    by (simp only: utf8_points_of_point list.set_intros)
  with Cons show ?case by simp
qed

lemma utf8_of_points_bytes:
  assumes "\<forall>cp \<in> set cps. is_scalar_value cp"
  shows "map unat (map of_nat (concat (map utf8_of_point cps)) :: 8 word list)
           = concat (map utf8_of_point cps)"
proof -
  have "unat (of_nat b :: 8 word) = b" if "b \<in> set (concat (map utf8_of_point cps))" for b
  proof -
    from that obtain cp where "cp \<in> set cps" "b \<in> set (utf8_of_point cp)" by auto
    with assms have "b < 256" using utf8_of_point_bytes[of cp b]
      by (simp add: is_scalar_value_def)
    then show ?thesis by (simp add: unat_of_nat)
  qed
  then have "map (\<lambda>b. unat (of_nat b :: 8 word)) (concat (map utf8_of_point cps))
               = concat (map utf8_of_point cps)"
    by (intro map_idI)
  then show ?thesis by (simp add: comp_def)
qed

lemma unit_of_point:
  "\<not> is_high_surrogate u \<Longrightarrow> \<not> is_low_surrogate u
   \<Longrightarrow> is_scalar_value (point_of_unit u) \<and> units_of_point (point_of_unit u) = [u]"
  using unit16_bound[of u]
  by (auto simp: point_of_unit_def is_scalar_value_def units_of_point_def
      is_high_surrogate_def is_low_surrogate_def)

lemma pair_of_point:
  assumes "is_high_surrogate u" "is_low_surrogate v"
  shows "is_scalar_value (0x10000 + (unat u - 0xD800) * 0x400 + (unat v - 0xDC00))
       \<and> units_of_point (0x10000 + (unat u - 0xD800) * 0x400 + (unat v - 0xDC00)) = [u, v]"
proof -
  define h where "h = unat u - 0xD800"
  define l where "l = unat v - 0xDC00"
  from assms have hl: "h < 0x400" "l < 0x400" "unat u = 0xD800 + h" "unat v = 0xDC00 + l"
    by (auto simp: h_def l_def is_high_surrogate_def is_low_surrogate_def)
  have d: "(h * 0x400 + l) div 0x400 = h" "(h * 0x400 + l) mod 0x400 = l"
    using hl(2) by simp_all
  have "is_scalar_value (0x10000 + h * 0x400 + l)"
    using hl(1,2) by (simp add: is_scalar_value_def)
  moreover have "units_of_point (0x10000 + h * 0x400 + l) = [of_nat (unat u), of_nat (unat v)]"
    using d by (simp add: units_of_point_def hl(3,4) del: of_nat_add)
  ultimately show ?thesis by (simp add: h_def l_def)
qed

lemma code_points_well_formed:
  "isWellFormed s \<Longrightarrow>
     (\<forall>cp \<in> set (code_points s). is_scalar_value cp)
     \<and> concat (map units_of_point (code_points s)) = s"
proof (induction s rule: code_points.induct)
  case 1
  then show ?case by simp
next
  case (2 u)
  then show ?case using unit_of_point[of u] by simp
next
  case (3 u v rest)
  show ?case
  proof (cases "is_high_surrogate u")
    case True
    with "3.prems" have v: "is_low_surrogate v" and r: "isWellFormed rest" by simp_all
    from "3.IH"(1) True v r pair_of_point[OF True v] show ?thesis by simp
  next
    case False
    with "3.prems" have u: "\<not> is_low_surrogate u" and r: "isWellFormed (v # rest)" by simp_all
    from "3.IH"(2) False r unit_of_point[OF False u] show ?thesis by simp
  qed
qed

text \<open>A string without a surrogate that stands alone is read back from its UTF-8 bytes
  as it was.\<close>

lemma utf8_roundtrip:
  assumes "isWellFormed s"
  shows "utf8_string (utf8_bytes s) = s"
proof -
  from code_points_well_formed[OF assms] have
    sc: "\<forall>cp \<in> set (code_points s). is_scalar_value cp"
    and un: "concat (map units_of_point (code_points s)) = s" by simp_all
  show ?thesis
    by (simp only: utf8_string_def utf8_bytes_def utf8_of_points_bytes[OF sc]
        utf8_points_of_points[OF sc] un)
qed

text \<open>On ASCII text both directions keep the values.\<close>

lemma code_points_ascii:
  "\<forall>u \<in> set s. unat u < 0x80 \<Longrightarrow> code_points s = map unat s"
  by (induction s rule: code_points.induct)
     (simp_all add: point_of_unit_def is_high_surrogate_def is_low_surrogate_def)

lemma utf8_bytes_ascii:
  assumes "\<forall>u \<in> set s. unat u < 0x80"
  shows "map unat (utf8_bytes s) = map unat s"
proof -
  have "concat (map utf8_of_point (map unat s)) = map unat s"
    using assms by (induction s) (simp_all add: utf8_of_point_def)
  moreover have "map (\<lambda>u. unat (of_nat (unat u) :: 8 word)) s = map unat s"
  proof (rule map_cong[OF refl])
    fix u assume "u \<in> set s"
    with assms have "unat u < 0x80" by blast
    then show "unat (of_nat (unat u) :: 8 word) = unat u"
      by (simp only: unat_of_nat) simp
  qed
  ultimately show ?thesis
    by (simp only: utf8_bytes_def code_points_ascii[OF assms] map_map comp_def)
qed

lemma utf8_points_ascii:
  "\<forall>b \<in> set bs. b < 0x80 \<Longrightarrow> utf8_points bs = bs"
  by (induction bs) simp_all

lemma utf8_string_ascii:
  assumes "\<forall>b \<in> set bs. b < 0x80"
  shows "utf8_string (map of_nat bs) = map of_nat bs"
proof -
  have "map unat (map of_nat bs :: 8 word list) = bs"
  proof -
    have "unat (of_nat b :: 8 word) = b" if "b \<in> set bs" for b
    proof -
      from assms that have "b < 0x80" by blast
      then show ?thesis by (simp add: unat_of_nat)
    qed
    then have "map (\<lambda>b. unat (of_nat b :: 8 word)) bs = bs" by (intro map_idI)
    then show ?thesis by (simp add: comp_def)
  qed
  moreover have "concat (map units_of_point bs) = map of_nat bs"
    using assms by (induction bs) (simp_all add: units_of_point_def)
  ultimately show ?thesis
    by (simp add: utf8_string_def utf8_points_ascii[OF assms])
qed

subsection \<open>PII cipher\<close>

lemma ctr_from_roundtrip: "ctr_from ks iv i (ctr_from ks iv i bs) = bs"
  by (induction bs arbitrary: i) (simp_all add: xor.assoc)

lemma ctr_xor_roundtrip: "ctr_xor ks iv (ctr_xor ks iv bs) = bs"
  by (simp add: ctr_xor_def ctr_from_roundtrip)

lemma hex_digit_value_list: "\<forall>d \<in> set [0..<16]. hex_unit_value (hex_digit d) = Some d"
  by code_simp

lemma hex_digit_value: "d < 16 \<Longrightarrow> hex_unit_value (hex_digit d) = Some d"
  using hex_digit_value_list by simp

lemma hex_roundtrip: "hex_decode (hex_encode bs) = bs"
proof (induction bs)
  case Nil
  then show ?case by (simp add: hex_encode_def)
next
  case (Cons b bs)
  have "unat b < 256" using unsigned_less[of b, where ?'a = nat] by simp
  then have d: "unat b div 16 < 16" "unat b mod 16 < 16" by auto
  from Cons show ?case
    by (simp add: hex_encode_def hex_digit_value[OF d(1)] hex_digit_value[OF d(2)])
qed

lemma hex_encode_length: "even (length (hex_encode bs))"
  by (induction bs) (simp_all add: hex_encode_def)

lemma hex_encode_inj:
  assumes "hex_encode a = hex_encode b"
  shows "a = b"
proof -
  have "a = hex_decode (hex_encode a)" by (simp only: hex_roundtrip)
  also have "\<dots> = hex_decode (hex_encode b)" by (simp only: assms)
  also have "\<dots> = b" by (simp only: hex_roundtrip)
  finally show ?thesis .
qed

lemma ascii_iv_encrypted: "ascii ''iv'' \<noteq> ascii ''encrypted''"
  by (simp add: ascii_def)

lemma decrypt_body_token:
  assumes "length iv = 16" "parse64 T = Some (EncryptedData ks iv P)"
  shows "decrypt_body parse64 other ks T = Inr (utf8_string (utf8_bytes P))"
  using assms ascii_iv_encrypted
  by (simp add: decrypt_body_def EncryptedData_def get_property_def buffer_from_hex_def
      decipher_update_def hex_roundtrip ctr_xor_roundtrip hex_encode_length)

lemma iv_text_token: "iv_text (EncryptedData ks iv P) = hex_encode iv"
  by (simp add: iv_text_def EncryptedData_def)

text \<open>What \<^verbatim>\<open>decryptPII\<close> does with a token of \<^verbatim>\<open>encryptPII\<close>, for every plaintext.\<close>

lemma decrypt_of_encrypt:
  assumes "P \<noteq> []" "length iv = 16" "codec_ok parse64 stringify64 (EncryptedData ks iv P)"
  shows "\<exists>T. encryptPII stringify64 ks iv P = Inr T
           \<and> decryptPII parse64 other ks T = Inr (utf8_string (utf8_bytes P))"
  using assms
  by (simp add: encryptPII_def decryptPII_def codec_ok_def decrypt_body_token)

text \<open>The body of \<^verbatim>\<open>decryptPII\<close> throws exactly on the inputs that have not the parts of a
  token.\<close>

lemma decrypt_body_no_token:
  assumes "token_parts parse64 other T = None"
  shows "\<exists>e. decrypt_body parse64 other ks T = Inl e"
  using assms
  by (auto simp: token_parts_def decrypt_body_def get_property_def decipher_update_def
      split: option.splits js_value.splits sum.splits if_splits)

lemma decrypt_body_of_token:
  assumes "token_parts parse64 other T = Some (iv, h)"
  shows "decrypt_body parse64 other ks T = Inr (utf8_string (ctr_xor ks iv (hex_decode h)))"
  using assms
  by (auto simp: token_parts_def decrypt_body_def get_property_def decipher_update_def
      split: option.splits js_value.splits sum.splits if_splits)

lemma not_encrypted_no_token:
  assumes "\<not> isEncrypted parse64 T" "T \<noteq> []"
  shows "token_parts parse64 other T = None"
  using assms
  by (auto simp: token_parts_def isEncrypted_def buffer_from_hex_def
      split: option.splits js_value.splits sum.splits if_splits)

subsection \<open>The codec of the examples\<close>

lemma example_stringify64_ascii:
  assumes "\<forall>u \<in> set (json_members ms). unat u < 0x80"
  shows "example_stringify64 (JObj ms) = b64_encode (map unat ([0x7B] @ json_members ms @ [0x7D]))"
proof -
  have "\<forall>u \<in> set ([0x7B] @ json_members ms @ [0x7D]). unat u < 0x80"
    using assms by simp
  then show ?thesis
    by (simp only: example_stringify64_def js_value.case utf8_bytes_ascii)
qed

lemma example_parse64_ascii:
  assumes "\<forall>b \<in> set (b64_decode s). b < 0x80"
  shows "example_parse64 s =
     (case map of_nat (b64_decode s) of
        [] \<Rightarrow> None
      | c # cs \<Rightarrow>
          if c \<noteq> 0x7B then None
          else (case read_members (length cs) cs of None \<Rightarrow> None | Some ms \<Rightarrow> Some (JObj ms)))"
  by (simp only: example_parse64_def utf8_string_ascii[OF assms])

lemma example_plaintext_bytes:
  "utf8_bytes example_plaintext = [97, 64, 98, 46, 99, 195, 169, 240, 159, 152, 128]"
  by (simp add: example_plaintext_def utf8_bytes_def ascii_def point_of_unit_def
      is_high_surrogate_def is_low_surrogate_def utf8_of_point_def)

lemma example_plaintext_well_formed: "isWellFormed example_plaintext"
  by (simp add: example_plaintext_def ascii_def is_high_surrogate_def is_low_surrogate_def)

lemma b64_encode_nonempty: "xs \<noteq> [] \<Longrightarrow> b64_encode xs \<noteq> []"
  by (cases xs rule: b64_encode.cases) simp_all

text \<open>The codec of the examples reads back the token it writes for an object, when the
  three computations on the JSON text of the object come out as stated.\<close>

lemma example_codec_ok:
  assumes a: "\<forall>u \<in> set (json_members ms). unat u < 0x80"
    and b: "b64_decode (b64_encode (map unat ([0x7B] @ json_members ms @ [0x7D])))
              = map unat ([0x7B] @ json_members ms @ [0x7D])"
    and c: "read_members (length (json_members ms @ [0x7D])) (json_members ms @ [0x7D]) = Some ms"
  shows "codec_ok example_parse64 example_stringify64 (JObj ms)"
proof -
  let ?J = "[0x7B] @ json_members ms @ [0x7D]"
  let ?T = "b64_encode (map unat ?J)"
  have s: "example_stringify64 (JObj ms) = ?T"
    using a by (rule example_stringify64_ascii)
  have n: "?T \<noteq> []" by (rule b64_encode_nonempty) simp
  have "\<forall>b \<in> set (b64_decode ?T). b < 0x80"
    using a by (simp only: b) simp
  then have "example_parse64 ?T =
     (case map of_nat (b64_decode ?T) of
        [] \<Rightarrow> None
      | c # cs \<Rightarrow>
          if c \<noteq> 0x7B then None
          else (case read_members (length cs) cs of None \<Rightarrow> None | Some ms \<Rightarrow> Some (JObj ms)))"
    by (rule example_parse64_ascii)
  also have "map of_nat (b64_decode ?T) = ?J"
    by (simp only: b) (simp add: comp_def)
  finally have "example_parse64 ?T = Some (JObj ms)"
    using c by simp
  with s n show ?thesis by (simp only: codec_ok_def) simp
qed

lemma example_codec_ok_iv:
  "codec_ok example_parse64 example_stringify64
     (EncryptedData example_ks example_iv example_plaintext)"
  unfolding EncryptedData_def example_plaintext_bytes
  by (rule example_codec_ok; code_simp)

lemma example_codec_ok_iv':
  "codec_ok example_parse64 example_stringify64
     (EncryptedData example_ks example_iv' example_plaintext)"
  unfolding EncryptedData_def example_plaintext_bytes
  by (rule example_codec_ok; code_simp)

lemma lone_surrogate_bytes: "utf8_bytes [0xD800] = [0xEF, 0xBF, 0xBD]"
  by (simp add: utf8_bytes_def point_of_unit_def is_high_surrogate_def REPLACEMENT_def
      utf8_of_point_def)

lemma replacement_character_bytes: "utf8_string [0xEF, 0xBF, 0xBD] = [0xFFFD]"
  by (simp add: utf8_string_def is_continuation_def second_lower_def second_upper_def
      units_of_point_def)

lemma example_codec_ok_lone_surrogate:
  "codec_ok example_parse64 example_stringify64 (EncryptedData example_ks example_iv [0xD800])"
  unfolding EncryptedData_def lone_surrogate_bytes
  by (rule example_codec_ok; code_simp)

lemma example_token_lone_surrogate:
  "example_stringify64 (EncryptedData example_ks example_iv [0xD800])
     = ascii ''eyJlbmNyeXB0ZWQiOiJlZWI2YjAiLCJpdiI6IjAwMDEwMjAzMDQwNTA2MDcwODA5MGEwYjBjMGQwZTBmIn0=''"
proof -
  have "\<forall>u \<in> set (json_members
           [(ascii ''encrypted'', JStr (hex_encode (ctr_xor example_ks example_iv [0xEF, 0xBF, 0xBD]))),
            (ascii ''iv'', JStr (hex_encode example_iv))]). unat u < 0x80"
    by code_simp
  then have "example_stringify64 (EncryptedData example_ks example_iv [0xD800])
      = b64_encode (map unat ([0x7B] @ json_members
           [(ascii ''encrypted'', JStr (hex_encode (ctr_xor example_ks example_iv [0xEF, 0xBF, 0xBD]))),
            (ascii ''iv'', JStr (hex_encode example_iv))] @ [0x7D]))"
    by (simp only: EncryptedData_def lone_surrogate_bytes example_stringify64_ascii)
  also have "\<dots> = ascii ''eyJlbmNyeXB0ZWQiOiJlZWI2YjAiLCJpdiI6IjAwMDEwMjAzMDQwNTA2MDcwODA5MGEwYjBjMGQwZTBmIn0=''"
    by code_simp
  finally show ?thesis .
qed

lemma example_parse64_foreign_token:
  "example_parse64
     (ascii ''eyJlbmNyeXB0ZWQiOiJ6eiIsIml2IjoiMDAwMTAyMDMwNDA1MDYwNzA4MDkwYTBiMGMwZDBlMGYifQ=='')
   = Some (JObj [(ascii ''encrypted'', JStr (ascii ''zz'')),
                 (ascii ''iv'', JStr (ascii ''000102030405060708090a0b0c0d0e0f''))])"
proof -
  have "\<forall>b \<in> set (b64_decode
     (ascii ''eyJlbmNyeXB0ZWQiOiJ6eiIsIml2IjoiMDAwMTAyMDMwNDA1MDYwNzA4MDkwYTBiMGMwZDBlMGYifQ=='')).
     b < 0x80"
    by code_simp
  then have "example_parse64
     (ascii ''eyJlbmNyeXB0ZWQiOiJ6eiIsIml2IjoiMDAwMTAyMDMwNDA1MDYwNzA4MDkwYTBiMGMwZDBlMGYifQ=='')
    = (case map of_nat (b64_decode
     (ascii ''eyJlbmNyeXB0ZWQiOiJ6eiIsIml2IjoiMDAwMTAyMDMwNDA1MDYwNzA4MDkwYTBiMGMwZDBlMGYifQ=='')) of
        [] \<Rightarrow> None
      | c # cs \<Rightarrow>
          if c \<noteq> 0x7B then None
          else (case read_members (length cs) cs of None \<Rightarrow> None | Some ms \<Rightarrow> Some (JObj ms)))"
    by (rule example_parse64_ascii)
  also have "\<dots> = Some (JObj [(ascii ''encrypted'', JStr (ascii ''zz'')),
                 (ascii ''iv'', JStr (ascii ''000102030405060708090a0b0c0d0e0f''))])"
    by code_simp
  finally show ?thesis .
qed

lemma example_parse64_plain_text:
  "example_parse64 (ascii ''jean.dupont@example.com'') = None"
proof -
  have "b64_decode (ascii ''jean.dupont@example.com'') = [141, 230, 167]"
    by code_simp
  then show ?thesis
    by (simp add: example_parse64_def utf8_string_def is_continuation_def second_lower_def
        second_upper_def units_of_point_def REPLACEMENT_def)
qed

text \<open>
  Claim C4, as amended.  For every non-empty plaintext \<open>P\<close> in which no surrogate stands
  alone, and any two different 16-byte IVs (two draws of the random generator), with a
  token codec that reads back the two tokens it writes: both encryptions succeed,
  decrypting either token gives \<open>P\<close> back, and the two tokens are different.
\<close>

theorem encrypt_decrypt_roundtrip:
  assumes "P \<noteq> []" and "isWellFormed P"
    and "length iv = 16" and "length iv' = 16" and "iv \<noteq> iv'"
    and "codec_ok parse64 stringify64 (EncryptedData ks iv P)"
    and "codec_ok parse64 stringify64 (EncryptedData ks iv' P)"
  shows "\<exists>T T'. encryptPII stringify64 ks iv P = Inr T
           \<and> encryptPII stringify64 ks iv' P = Inr T'
           \<and> decryptPII parse64 other ks T = Inr P
           \<and> decryptPII parse64 other ks T' = Inr P
           \<and> T \<noteq> T'"
proof -
  let ?T = "stringify64 (EncryptedData ks iv P)" and ?T' = "stringify64 (EncryptedData ks iv' P)"
  have e: "encryptPII stringify64 ks iv P = Inr ?T" "encryptPII stringify64 ks iv' P = Inr ?T'"
    using assms by (simp_all add: encryptPII_def)
  have p: "?T \<noteq> []" "parse64 ?T = Some (EncryptedData ks iv P)"
    "?T' \<noteq> []" "parse64 ?T' = Some (EncryptedData ks iv' P)"
    using assms by (simp_all add: codec_ok_def)
  have d: "decryptPII parse64 other ks ?T = Inr P" "decryptPII parse64 other ks ?T' = Inr P"
    using p assms(3,4) utf8_roundtrip[OF assms(2)]
    by (simp_all add: decryptPII_def decrypt_body_token)
  have "?T \<noteq> ?T'"
  proof
    assume eq: "?T = ?T'"
    have "Some (EncryptedData ks iv P) = parse64 ?T" by (simp only: p(2))
    also have "\<dots> = parse64 ?T'" by (simp only: eq)
    also have "\<dots> = Some (EncryptedData ks iv' P)" by (rule p(4))
    finally have "iv_text (EncryptedData ks iv P) = iv_text (EncryptedData ks iv' P)"
      by (simp only: option.inject)
    then have "hex_encode iv = hex_encode iv'"
      by (simp only: iv_text_token)
    then have "iv = iv'" by (rule hex_encode_inj)
    with assms(5) show False by simp
  qed
  with e d show ?thesis by (intro exI conjI) assumption+
qed

theorem encrypt_decrypt_roundtrip_witness:
  "example_plaintext \<noteq> [] \<and> isWellFormed example_plaintext
   \<and> length example_iv = 16 \<and> length example_iv' = 16 \<and> example_iv \<noteq> example_iv'
   \<and> codec_ok example_parse64 example_stringify64
        (EncryptedData example_ks example_iv example_plaintext)
   \<and> codec_ok example_parse64 example_stringify64
        (EncryptedData example_ks example_iv' example_plaintext)
   \<and> (\<exists>T T'. encryptPII example_stringify64 example_ks example_iv example_plaintext = Inr T
          \<and> encryptPII example_stringify64 example_ks example_iv' example_plaintext = Inr T'
          \<and> decryptPII example_parse64 strings_only example_ks T = Inr example_plaintext
          \<and> decryptPII example_parse64 strings_only example_ks T' = Inr example_plaintext
          \<and> T \<noteq> T')"
proof -
  have n: "example_plaintext \<noteq> []" by (simp add: example_plaintext_def ascii_def)
  have l1: "length example_iv = 16" by (simp add: example_iv_def)
  have l2: "length example_iv' = 16" by (simp add: example_iv'_def)
  have d: "example_iv \<noteq> example_iv'" by (simp add: example_iv_def example_iv'_def)
  from encrypt_decrypt_roundtrip
         [OF n example_plaintext_well_formed l1 l2 d example_codec_ok_iv example_codec_ok_iv',
          of strings_only]
    n example_plaintext_well_formed l1 l2 d example_codec_ok_iv example_codec_ok_iv'
  show ?thesis by (intro conjI)
qed

text \<open>
  The plaintext that is one high surrogate: the cipher reads it as the three bytes of
  U+FFFD, and decrypting the token gives U+FFFD, not the plaintext.
\<close>

theorem lone_surrogate_is_not_recovered:
  "encryptPII example_stringify64 example_ks example_iv [0xD800]
     = Inr (ascii ''eyJlbmNyeXB0ZWQiOiJlZWI2YjAiLCJpdiI6IjAwMDEwMjAzMDQwNTA2MDcwODA5MGEwYjBjMGQwZTBmIn0='')
   \<and> decryptPII example_parse64 strings_only example_ks
       (ascii ''eyJlbmNyeXB0ZWQiOiJlZWI2YjAiLCJpdiI6IjAwMDEwMjAzMDQwNTA2MDcwODA5MGEwYjBjMGQwZTBmIn0='')
     = Inr [0xFFFD]"
proof -
  have l: "length example_iv = 16" by (simp add: example_iv_def)
  have n: "[0xD800 :: unit16] \<noteq> []" by simp
  from decrypt_of_encrypt[OF n l example_codec_ok_lone_surrogate, of strings_only]
  obtain T where T: "encryptPII example_stringify64 example_ks example_iv [0xD800] = Inr T"
    "decryptPII example_parse64 strings_only example_ks T = Inr (utf8_string (utf8_bytes [0xD800]))"
    by blast
  from T(1) l have "T = example_stringify64 (EncryptedData example_ks example_iv [0xD800])"
    by (simp add: encryptPII_def)
  then have "T = ascii ''eyJlbmNyeXB0ZWQiOiJlZWI2YjAiLCJpdiI6IjAwMDEwMjAzMDQwNTA2MDcwODA5MGEwYjBjMGQwZTBmIn0=''"
    by (simp only: example_token_lone_surrogate)
  with T show ?thesis
    by (simp only: lone_surrogate_bytes replacement_character_bytes)
qed

text \<open>
  Claim C5, as amended.  \<^verbatim>\<open>decryptPII\<close> never lets an exception out: it always returns a
  string.  It returns the input string unchanged whenever a step of the decoding throws,
  which is the case for every input that has not the parts of a token, and so for every
  input that \<^verbatim>\<open>isEncrypted\<close> does not recognise (the empty string, a text the parser
  rejects, a JSON value that is not an object with the keys \<^verbatim>\<open>encrypted\<close> and \<^verbatim>\<open>iv\<close>).  An
  input that has the parts of a token is decrypted whatever it holds: the result is the
  UTF-8 reading of the key stream added to the bytes of the payload as far as it is hex.
\<close>

theorem decrypt_never_throws_and_returns_input:
  "(\<exists>s. decryptPII parse64 other ks T = Inr s)
   \<and> (\<not> isEncrypted parse64 T \<longrightarrow> decryptPII parse64 other ks T = Inr T)
   \<and> ((\<exists>e. decrypt_body parse64 other ks T = Inl e) \<longrightarrow> decryptPII parse64 other ks T = Inr T)
   \<and> (token_parts parse64 other T = None \<longrightarrow> decryptPII parse64 other ks T = Inr T)
   \<and> (\<forall>iv h. T \<noteq> [] \<and> token_parts parse64 other T = Some (iv, h)
         \<longrightarrow> decryptPII parse64 other ks T = Inr (utf8_string (ctr_xor ks iv (hex_decode h))))"
proof (intro conjI impI allI)
  show "\<exists>s. decryptPII parse64 other ks T = Inr s"
    by (simp add: decryptPII_def split: sum.splits)
  show "decryptPII parse64 other ks T = Inr T" if "\<exists>e. decrypt_body parse64 other ks T = Inl e"
    using that by (auto simp: decryptPII_def)
  show t: "decryptPII parse64 other ks T = Inr T" if "token_parts parse64 other T = None"
    using decrypt_body_no_token[OF that, of ks] by (auto simp: decryptPII_def)
  show "decryptPII parse64 other ks T = Inr T" if n: "\<not> isEncrypted parse64 T"
  proof (cases "T = []")
    case True
    then show ?thesis by (simp add: decryptPII_def)
  next
    case False
    with n have "token_parts parse64 other T = None" by (rule not_encrypted_no_token)
    then show ?thesis by (rule t)
  qed
  show "decryptPII parse64 other ks T = Inr (utf8_string (ctr_xor ks iv (hex_decode h)))"
    if "T \<noteq> [] \<and> token_parts parse64 other T = Some (iv, h)" for iv h
    using that decrypt_body_of_token[of parse64 other T iv h ks]
    by (simp add: decryptPII_def)
qed

theorem decrypt_never_throws_and_returns_input_witness:
  "\<not> isEncrypted example_parse64 (ascii ''jean.dupont@example.com'')
   \<and> token_parts example_parse64 strings_only (ascii ''jean.dupont@example.com'') = None
   \<and> decryptPII example_parse64 strings_only example_ks (ascii ''jean.dupont@example.com'')
       = Inr (ascii ''jean.dupont@example.com'')"
proof -
  have n: "\<not> isEncrypted example_parse64 (ascii ''jean.dupont@example.com'')"
    by (simp add: isEncrypted_def example_parse64_plain_text)
  have t: "token_parts example_parse64 strings_only (ascii ''jean.dupont@example.com'') = None"
    by (simp add: token_parts_def example_parse64_plain_text)
  from decrypt_never_throws_and_returns_input
         [of example_parse64 strings_only example_ks "ascii ''jean.dupont@example.com''"] n t
  show ?thesis by blast
qed

text \<open>
  The base64 text of \<^verbatim>\<open>{"encrypted":"zz","iv":"000102030405060708090a0b0c0d0e0f"}\<close> was
  not written by \<^verbatim>\<open>encryptPII\<close>, but it has the parts of a token: \<^verbatim>\<open>isEncrypted\<close> accepts
  it, nothing throws, and \<^verbatim>\<open>decryptPII\<close> returns the empty string instead of the input.
\<close>

theorem foreign_token_is_not_returned_unchanged:
  "isEncrypted example_parse64
     (ascii ''eyJlbmNyeXB0ZWQiOiJ6eiIsIml2IjoiMDAwMTAyMDMwNDA1MDYwNzA4MDkwYTBiMGMwZDBlMGYifQ=='')
   \<and> decryptPII example_parse64 strings_only example_ks
       (ascii ''eyJlbmNyeXB0ZWQiOiJ6eiIsIml2IjoiMDAwMTAyMDMwNDA1MDYwNzA4MDkwYTBiMGMwZDBlMGYifQ=='')
     = Inr []"
proof -
  let ?T = "ascii ''eyJlbmNyeXB0ZWQiOiJ6eiIsIml2IjoiMDAwMTAyMDMwNDA1MDYwNzA4MDkwYTBiMGMwZDBlMGYifQ==''"
  have ne: "?T \<noteq> []" by (simp add: ascii_def)
  have iv: "hex_decode (ascii ''000102030405060708090a0b0c0d0e0f'') = example_iv"
    by code_simp
  have zz: "hex_decode (ascii ''zz'') = []"
    by code_simp
  have k: "map_of [(ascii ''encrypted'', JStr (ascii ''zz'')),
                   (ascii ''iv'', JStr (ascii ''000102030405060708090a0b0c0d0e0f''))]
             (ascii ''iv'') = Some (JStr (ascii ''000102030405060708090a0b0c0d0e0f''))"
    using ascii_iv_encrypted by simp
  have l: "length example_iv = 16" by (simp add: example_iv_def)
  have ev: "even (length (ascii ''zz''))" by (simp add: ascii_def)
  have "isEncrypted example_parse64 ?T"
    using ne k by (simp add: isEncrypted_def example_parse64_foreign_token)
  moreover
  have "token_parts example_parse64 strings_only ?T = Some (example_iv, ascii ''zz'')"
    using k l ev
    by (simp add: token_parts_def example_parse64_foreign_token buffer_from_hex_def iv)
  then have "decryptPII example_parse64 strings_only example_ks ?T = Inr []"
    using ne by (simp add: decryptPII_def decrypt_body_of_token zz ctr_xor_def utf8_string_def)
  ultimately show ?thesis by simp
qed

text \<open>
  Claim C10.  For every non-empty plaintext \<open>P\<close> (a 16-byte IV, a codec that reads back
  the token it writes), \<^verbatim>\<open>isEncrypted\<close> recognises the token that \<^verbatim>\<open>encryptPII\<close> returns.
  \<^verbatim>\<open>encryptPII\<close> returns the empty string unchanged, and \<^verbatim>\<open>isEncrypted\<close> is false on
  it.
\<close>

theorem encrypted_output_is_recognised:
  assumes "P \<noteq> []" and "length iv = 16" and "codec_ok parse64 stringify64 (EncryptedData ks iv P)"
  shows "(\<exists>T. encryptPII stringify64 ks iv P = Inr T \<and> isEncrypted parse64 T)
       \<and> encryptPII stringify64 ks iv [] = Inr []
       \<and> \<not> isEncrypted parse64 []"
  using assms
  by (simp add: encryptPII_def isEncrypted_def codec_ok_def EncryptedData_def)

theorem encrypted_output_is_recognised_witness:
  "example_plaintext \<noteq> [] \<and> length example_iv = 16
   \<and> codec_ok example_parse64 example_stringify64
        (EncryptedData example_ks example_iv example_plaintext)
   \<and> (\<exists>T. encryptPII example_stringify64 example_ks example_iv example_plaintext = Inr T
          \<and> isEncrypted example_parse64 T)
   \<and> encryptPII example_stringify64 example_ks example_iv [] = Inr []
   \<and> \<not> isEncrypted example_parse64 []"
proof -
  have n: "example_plaintext \<noteq> []" by (simp add: example_plaintext_def ascii_def)
  have l1: "length example_iv = 16" by (simp add: example_iv_def)
  from encrypted_output_is_recognised [OF n l1 example_codec_ok_iv] n l1 example_codec_ok_iv
  show ?thesis by (intro conjI) simp_all
qed

subsection \<open>The script pattern\<close>




















subsection \<open>XSS sanitizer\<close>

lemma RegExp_test_fresh:
  "fst (RegExp_test r 0 s) = u_matches r s"
  "\<not> u_matches r s \<Longrightarrow> snd (RegExp_test r 0 s) = 0"
  by (auto simp: RegExp_test_def u_matches_def split: option.splits)

lemma test_patterns_fresh:
  "fst (test_patterns rs (fresh rs) s) = list_ex (\<lambda>r. u_matches r s) rs
   \<and> (\<not> list_ex (\<lambda>r. u_matches r s) rs \<longrightarrow> snd (test_patterns rs (fresh rs) s) = fresh rs)"
proof (induction rs)
  case Nil
  then show ?case by (simp add: fresh_def)
next
  case (Cons r rs)
  obtain hit i where t: "RegExp_test r 0 s = (hit, i)" by (cases "RegExp_test r 0 s")
  with RegExp_test_fresh[of r s] have h: "hit = u_matches r s" "\<not> u_matches r s \<Longrightarrow> i = 0" by auto
  obtain hit' is' where u: "test_patterns rs (fresh rs) s = (hit', is')"
    by (cases "test_patterns rs (fresh rs) s")
  with Cons have v: "hit' = list_ex (\<lambda>r. u_matches r s) rs"
    "\<not> list_ex (\<lambda>r. u_matches r s) rs \<Longrightarrow> is' = fresh rs" by auto
  have f: "fresh (r # rs) = 0 # fresh rs" by (simp add: fresh_def)
  show ?case using t u h v
    by (auto simp: f fresh_def)
qed






lemma RegExp_test_global_miss:
  "flag_g r \<Longrightarrow> \<not> fst (RegExp_test r i s) \<Longrightarrow> snd (RegExp_test r i s) = 0"
  by (auto simp: RegExp_test_def split: option.splits if_splits)

lemma test_patterns_miss:
  assumes "\<forall>r \<in> set rs. flag_g r" "length st = length rs" "\<not> fst (test_patterns rs st s)"
  shows "snd (test_patterns rs st s) = fresh rs"
  using assms
proof (induction rs arbitrary: st)
  case Nil
  then show ?case by (simp add: fresh_def)
next
  case (Cons r rs)
  then obtain i js where st: "st = i # js" by (cases st) auto
  obtain hit i' where t: "RegExp_test r i s = (hit, i')" by (cases "RegExp_test r i s")
  obtain hit' js' where u: "test_patterns rs js s = (hit', js')" by (cases "test_patterns rs js s")
  from Cons.prems(3) t u st have nh: "\<not> hit" "\<not> hit'"
    by (auto split: if_splits)
  from RegExp_test_global_miss[of r i s] Cons.prems(1) t nh have i': "i' = 0" by simp
  from Cons.IH[of js] Cons.prems(1,2) u nh st have "js' = fresh rs" by simp
  with t u nh i' st show ?case by (simp add: fresh_def)
qed

lemma XSS_PATTERNS_global: "\<forall>r \<in> set XSS_PATTERNS. flag_g r"
  by (simp add: XSS_PATTERNS_def gi_def)

text \<open>When the first loop finds nothing, every search position is back at the start,
  so the second loop searches the decoded text from its start.\<close>

lemma first_loop_miss:
  assumes "length st = length XSS_PATTERNS" "test_patterns XSS_PATTERNS st S = (False, st1)"
  shows "st1 = fresh XSS_PATTERNS"
  using test_patterns_miss[OF XSS_PATTERNS_global assms(1), of S] assms(2) by simp


lemma strip_tags_id: "0x3C \<notin> set s \<Longrightarrow> strip_tags False s = s"
  by (induction s) simp_all



text \<open>A text that \<^verbatim>\<open>sanitizeXSS\<close> returns for a non-empty input, in whatever state, is the
  purified and decoded input, matches no dangerous pattern and has at most 10000 code
  units, and the search positions are at the start afterwards.\<close>

lemma sanitizeXSS_result_is_clean:
  assumes "S \<noteq> []" "length st = length XSS_PATTERNS"
    and "sanitizeXSS purify st S = (Inr r, st')"
  shows "r = html_decode (purify S) \<and> \<not> list_ex (\<lambda>p. u_matches p r) XSS_PATTERNS
       \<and> length r \<le> 10000 \<and> st' = fresh XSS_PATTERNS"
proof -
  obtain hit st1 where a: "test_patterns XSS_PATTERNS st S = (hit, st1)"
    by (cases "test_patterns XSS_PATTERNS st S")
  have nh: "\<not> hit" using assms(1,3) a by (auto simp: sanitizeXSS_def)
  have st1: "st1 = fresh XSS_PATTERNS"
    using a nh assms(2) by (simp add: first_loop_miss)
  obtain hit2 st2 where
    b: "test_patterns XSS_PATTERNS (fresh XSS_PATTERNS) (html_decode (purify S)) = (hit2, st2)"
    by (cases "test_patterns XSS_PATTERNS (fresh XSS_PATTERNS) (html_decode (purify S))")
  from assms(1,3) a nh st1 b have r: "\<not> hit2" "length (html_decode (purify S)) \<le> 10000"
    "r = html_decode (purify S)" "st' = st2"
    by (auto simp: sanitizeXSS_def Let_def split: if_splits)
  from test_patterns_fresh[of XSS_PATTERNS "html_decode (purify S)"] b r(1)
  have "\<not> list_ex (\<lambda>p. u_matches p (html_decode (purify S))) XSS_PATTERNS"
    "st2 = fresh XSS_PATTERNS"
    by auto
  with r show ?thesis by simp
qed


lemma search_dead:
  assumes "\<And>p xs. u_ends ci r (p, z # xs) = []" and "\<And>p. u_ends ci r (p, []) = []"
  shows "u_search ci r p (replicate n z) = None"
  using assms by (induction n arbitrary: p) simp_all


lemma replace_steps_z:
  assumes "pat \<noteq> []" "hd pat \<noteq> z"
  shows "replace_steps m pat rep (replicate n z) = replicate n z"
proof (induction m arbitrary: n)
  case 0
  then show ?case by simp
next
  case (Suc m)
  show ?case
  proof (cases n)
    case 0
    then show ?thesis by simp
  next
    case (Suc k)
    have "\<not> prefix pat (z # replicate k z)"
      using assms by (cases pat) auto
    then show ?thesis using Suc Suc.IH[of k] by simp
  qed
qed







text \<open>
  Beyond ASCII: a no-break space between an event handler name and \<^verbatim>\<open>=\<close> is white space
  for the fourth pattern, and the length limit counts code units, so 5001 letters
  \<^verbatim>\<open>U+00E9\<close> are returned.
\<close>

lemma xss_patterns_dead_on_e_acute:
  "\<not> list_ex (\<lambda>r. u_matches r (replicate n 0xE9)) XSS_PATTERNS"
  by (simp add: XSS_PATTERNS_def u_matches_def gi_def script_pattern_def ascii_def
      search_dead u_one_char_def lower_unit_def)

lemma sanitizeXSS_counts_code_units:
  "sanitizeXSS example_purify (fresh XSS_PATTERNS) (replicate 5001 0xE9)
     = (Inr (replicate 5001 0xE9), fresh XSS_PATTERNS)"
proof -
  have n: "replicate 5001 (0xE9 :: unit16) \<noteq> []" by simp
  have p: "example_purify (replicate 5001 0xE9) = replicate 5001 0xE9"
    by (simp add: example_purify_def strip_tags_id)
  have d: "html_decode (replicate 5001 0xE9) = replicate 5001 0xE9"
    by (simp add: html_decode_def replace_all_def replace_steps_z ascii_def)
  have t: "test_patterns XSS_PATTERNS (fresh XSS_PATTERNS) (replicate 5001 0xE9)
            = (False, fresh XSS_PATTERNS)"
    using test_patterns_fresh[of XSS_PATTERNS "replicate 5001 0xE9"]
      xss_patterns_dead_on_e_acute[of 5001]
    by (cases "test_patterns XSS_PATTERNS (fresh XSS_PATTERNS) (replicate 5001 0xE9)") simp
  show ?thesis
    using n t by (simp add: sanitizeXSS_def p d Let_def)
qed

lemma sanitizeXSS_no_break_space:
  "fst (sanitizeXSS example_purify (fresh XSS_PATTERNS) (ascii ''onclick'' @ [0xA0] @ ascii ''=1''))
     = Inl ContentNotAllowed"
  by code_simp


subsection \<open>Path traversal filter\<close>

text \<open>
  Claim C8 at its failing input.  With the base directory \<^verbatim>\<open>/srv/app\<close>, the user path
  \<^verbatim>\<open>/srv/app-evil/x\<close> passes the filter (it has no \<^verbatim>\<open>..\<close>, no forbidden directory, name
  or character), resolves to itself, and passes the check
  \<^verbatim>\<open>fullPath.startsWith(normalizedBasePath)\<close>: \<^verbatim>\<open>createSecurePath\<close> returns a path in a
  sibling directory, which is not inside the base directory.
\<close>

theorem createSecurePath_returns_sibling_path:
  "fst (createSecurePath ''/srv'' (fresh DANGEROUS_PATH_PATTERNS) ''/srv/app'' ''/srv/app-evil/x'')
     = Some ''/srv/app-evil/x''
   \<and> path_resolve ''/srv'' [''/srv/app''] = ''/srv/app''
   \<and> \<not> strictly_inside ''/srv/app'' ''/srv/app-evil/x''"
  by code_simp

theorem createSecurePath_returns_sibling_path_witness:
  "fst (createSecurePath ''/srv'' (fresh DANGEROUS_PATH_PATTERNS) ''/srv/app'' ''/srv/app-evil/x'')
     \<noteq> None"
  using createSecurePath_returns_sibling_path by simp

text \<open>The base directory itself is returned for the user path \<^verbatim>\<open>.\<close>; it is not a strict
  descendant of itself either.\<close>

lemma createSecurePath_returns_base_itself:
  "fst (createSecurePath ''/srv'' (fresh DANGEROUS_PATH_PATTERNS) ''/srv/app'' ''.'')
     = Some ''/srv/app''
   \<and> \<not> strictly_inside ''/srv/app'' ''/srv/app''"
  by code_simp

text \<open>
  The traversal \<^verbatim>\<open>../../etc/passwd\<close> is refused: \<^verbatim>\<open>createSecurePath\<close> returns null for it
  with every base directory, every working directory and every state of the
  search positions.  Should the first expression miss \<^verbatim>\<open>..\<close> because its search
  starts too far into the text, the second one, which has no flag \<^verbatim>\<open>g\<close>, finds \<^verbatim>\<open>./\<close>.
\<close>

lemma regex_test_plain: "\<not> global r \<Longrightarrow> regex_test r i s = (matches r s, i)"
  by (simp add: regex_test_def)

lemma DANGEROUS_PATH_PATTERNS_head:
  "\<exists>rs. DANGEROUS_PATH_PATTERNS
     = global_cs (lits ''..'') # plain_cs (Alt (lits ''./'') (Seq dot (Chr backslash))) # rs"
  by (simp add: DANGEROUS_PATH_PATTERNS_def)

lemma createSecurePath_rejects_etc_passwd:
  assumes "length st = length DANGEROUS_PATH_PATTERNS"
  shows "fst (createSecurePath cwd st basePath ''../../etc/passwd'') = None"
proof -
  let ?s = "''../../etc/passwd''"
  let ?r1 = "global_cs (lits ''..'')"
  let ?r2 = "plain_cs (Alt (lits ''./'') (Seq dot (Chr backslash)))"
  obtain rs where ps: "DANGEROUS_PATH_PATTERNS = ?r1 # ?r2 # rs"
    using DANGEROUS_PATH_PATTERNS_head by blast
  from assms obtain i1 i2 rest where st: "st = i1 # i2 # rest"
    by (cases st; cases "tl st") (auto simp: ps)
  have dec: "decode_loop 5 (trim ?s) [] = ?s"
    by code_simp
  have m2: "matches ?r2 ?s"
    by code_simp
  have g2: "\<not> global ?r2"
    by (simp add: plain_cs_def)
  have t2: "regex_test ?r2 i2 ?s = (True, i2)"
    using regex_test_plain [OF g2, of i2 ?s] m2 by simp
  obtain h1 j1 where t1: "regex_test ?r1 i1 ?s = (h1, j1)"
    by (cases "regex_test ?r1 i1 ?s")
  have "test_any (?r1 # ?r2 # rs) (i1 # i2 # rest) ?s
          = (if h1 then (True, j1 # i2 # rest) else (True, j1 # i2 # rest))"
    by (simp only: test_any.simps t1 t2 Let_def prod.case if_True)
  then have hit: "test_any DANGEROUS_PATH_PATTERNS st ?s = (True, j1 # i2 # rest)"
    by (simp only: ps st if_cancel)
  have "sanitizeFilePath st ?s = (rejected ''Tentative de traversee detectee'' High, j1 # i2 # rest)"
    unfolding sanitizeFilePath_def dec hit Let_def by simp
  then show ?thesis
    by (simp add: createSecurePath_def rejected_def)
qed


end
